theory Spec2Isabelle
  imports Complex_Main "HOL-Library.AList"
begin

text \<open>
  The repository holds two variants of the script of one landing page. \<open>script.js\<close> has
  the multilingual hero animation, a statistics counter (\<open>animateStats\<close>) and a
  scroll-animation observer (\<open>initScrollAnimations\<close>). The second file, called the other
  script below, has one observer for the reveal and the counters
  (\<open>setupIntersectionObserver\<close>, \<open>addClassWithAnimation\<close>, \<open>animateStatistics\<close>). Both
  define the same \<open>throttle\<close>. Timers and animation frames are modelled as running
  exactly when they are due, in the order in which they were armed.
\<close>

section \<open>The DOM fragment the scripts touch\<close>

text \<open>
  Strings are byte strings: the source files are UTF-8, and a literal of the source is
  the list of its bytes. An element is modelled by the three things the scripts write:
  its text, its attributes (an association list, \<open>setAttribute\<close> overwrites) and its
  class list (\<open>classList.add\<close> appends a token that is absent and is a no-op on a
  token that is present, \<open>classList.remove\<close> deletes the token).
\<close>

record element =
  textContent :: string
  attributes :: "(string \<times> string) list"
  classList :: "string list"

definition setAttribute :: "string \<Rightarrow> string \<Rightarrow> element \<Rightarrow> element" where
  "setAttribute k v e = e\<lparr>attributes := AList.update k v (attributes e)\<rparr>"

definition getAttribute :: "string \<Rightarrow> element \<Rightarrow> string option" where
  "getAttribute k e = map_of (attributes e) k"

definition classList_add :: "string \<Rightarrow> element \<Rightarrow> element" where
  "classList_add c e = (if c \<in> set (classList e) then e else e\<lparr>classList := classList e @ [c]\<rparr>)"

definition classList_remove :: "string \<Rightarrow> element \<Rightarrow> element" where
  "classList_remove c e = e\<lparr>classList := removeAll c (classList e)\<rparr>"

definition classList_contains :: "string \<Rightarrow> element \<Rightarrow> bool" where
  "classList_contains c e = (c \<in> set (classList e))"

section \<open>script.js: the multilingual animation\<close>

subsection \<open>Configuration\<close>

definition ANIMATION_INTERVAL :: nat where
  "ANIMATION_INTERVAL = 3000"

definition FADE_DURATION :: nat where
  "FADE_DURATION = 800"

record language =
  l_text :: string
  l_lang :: string
  l_label :: string

definition LANGUAGES :: "language list" where
  "LANGUAGES =
    [\<lparr>l_text = ''ENIGMA'', l_lang = ''en'', l_label = ''English''\<rparr>,
     \<lparr>l_text = map char_of [224, 164, 143, 224, 164, 168, 224, 164, 191, 224, 164, 151,
                 224, 165, 141, 224, 164, 174, 224, 164, 190 :: nat],
      l_lang = ''hi'', l_label = ''Hindi''\<rparr>,
     \<lparr>l_text = map char_of [224, 178, 142, 224, 178, 168, 224, 178, 191, 224, 178, 151,
                 224, 179, 141, 224, 178, 174, 224, 178, 190 :: nat],
      l_lang = ''kn'', l_label = ''Kannada''\<rparr>,
     \<lparr>l_text = map char_of [224, 164, 143, 224, 164, 168, 224, 164, 191, 224, 164, 151,
                 224, 165, 141, 224, 164, 174, 224, 164, 190 :: nat],
      l_lang = ''mr'', l_label = ''Marathi''\<rparr>,
     \<lparr>l_text = map char_of [224, 170, 143, 224, 170, 168, 224, 170, 191, 224, 170, 151,
                 224, 171, 141, 224, 170, 174, 224, 170, 190 :: nat],
      l_lang = ''gu'', l_label = ''Gujarati''\<rparr>,
     \<lparr>l_text = map char_of [224, 166, 143, 224, 166, 168, 224, 166, 191, 224, 166, 151,
                 224, 167, 141, 224, 166, 174, 224, 166, 190 :: nat],
      l_lang = ''bn'', l_label = ''Bengali''\<rparr>]"

subsection \<open>Timers and the module state\<close>

text \<open>
  The three closures the animation hands to \<open>setInterval\<close> and \<open>setTimeout\<close>: the
  interval's tick, the text swap of \<open>animateLanguageChange\<close> (which closes over the
  language index it was called with) and the removal of the fade-in class.
\<close>

datatype callback = IntervalTick | FadeSwap nat | FadeCleanup

text \<open>
  An active timer of the browser: its handle, the time it is due (milliseconds), the
  period when it was made by \<open>setInterval\<close>, and its callback. The list is kept in the
  order in which the timers were (re)armed.
\<close>

record timer =
  timer_id :: nat
  due :: nat
  repeat :: "nat option"
  callback :: callback

text \<open>
  The module-level variables of script.js (\<open>currentLanguageIndex\<close>,
  \<open>animationInterval\<close>, \<open>prefersReducedMotion\<close>), the element with id
  \<open>hero-text\<close> when the markup has one, and the platform state the code reads: the
  reduced-motion media query, \<open>document.hidden\<close>, the clock, the table of active
  timers, the next timer handle (handles are positive), and whether the media-query
  listener of \<open>handleMotionPreferenceChange\<close> has been registered.
\<close>

record page =
  currentLanguageIndex :: nat
  animationInterval :: "nat option"
  prefersReducedMotion :: bool
  hero :: "element option"
  reduce_query :: bool
  doc_hidden :: bool
  now :: nat
  timers :: "timer list"
  next_timer_id :: nat
  motion_listener :: bool

text \<open>
  A call either returns or throws; both leave a state behind. The only throw of the
  animation is the \<open>TypeError\<close> of \<open>language.text\<close> when \<open>LANGUAGES[languageIndex]\<close>
  is \<open>undefined\<close>.
\<close>

datatype 'a outcome = Returned 'a | Thrown 'a

fun settle :: "'a outcome \<Rightarrow> 'a" where
  "settle (Returned s) = s"
| "settle (Thrown s) = s"

definition setInterval :: "callback \<Rightarrow> nat \<Rightarrow> page \<Rightarrow> nat \<times> page" where
  "setInterval cb delay s =
     (next_timer_id s,
      s\<lparr>timers := timers s @
            [\<lparr>timer_id = next_timer_id s, due = now s + delay, repeat = Some delay, callback = cb\<rparr>],
        next_timer_id := next_timer_id s + 1\<rparr>)"

definition setTimeout :: "callback \<Rightarrow> nat \<Rightarrow> page \<Rightarrow> nat \<times> page" where
  "setTimeout cb delay s =
     (next_timer_id s,
      s\<lparr>timers := timers s @
            [\<lparr>timer_id = next_timer_id s, due = now s + delay, repeat = None, callback = cb\<rparr>],
        next_timer_id := next_timer_id s + 1\<rparr>)"

definition clearInterval :: "nat \<Rightarrow> page \<Rightarrow> page" where
  "clearInterval h s = s\<lparr>timers := filter (\<lambda>t. timer_id t \<noteq> h) (timers s)\<rparr>"

subsection \<open>The functions of the animation\<close>

text \<open>\<open>updateLanguageText\<close>; \<open>None\<close> is the \<open>TypeError\<close>, thrown before any write.\<close>

definition updateLanguageText :: "nat \<Rightarrow> element \<Rightarrow> element option" where
  "updateLanguageText languageIndex e =
     (if languageIndex < length LANGUAGES then
        let language = LANGUAGES ! languageIndex in
        Some (setAttribute ''aria-label'' (l_label language @ '': '' @ l_text language)
               (setAttribute ''lang'' (l_lang language)
                 (e\<lparr>textContent := l_text language\<rparr>)))
      else None)"

text \<open>
  \<open>animateLanguageChange\<close>: the element is the hero element, the only one the script
  ever passes.
\<close>

definition animateLanguageChange :: "nat \<Rightarrow> page \<Rightarrow> page" where
  "animateLanguageChange languageIndex s =
     snd (setTimeout (FadeSwap languageIndex) (FADE_DURATION div 2)
            (s\<lparr>hero := map_option (classList_add ''fade-out'') (hero s)\<rparr>))"

definition startLanguageCycle :: "page \<Rightarrow> page outcome" where
  "startLanguageCycle s =
     (case hero s of
        None \<Rightarrow> Returned s
      | Some e \<Rightarrow>
          (case updateLanguageText (currentLanguageIndex s) e of
             None \<Rightarrow> Thrown s
           | Some e' \<Rightarrow>
               (case setInterval IntervalTick ANIMATION_INTERVAL (s\<lparr>hero := Some e'\<rparr>) of
                  (h, s') \<Rightarrow> Returned (s'\<lparr>animationInterval := Some h\<rparr>))))"

definition initMultilingualAnimation :: "page \<Rightarrow> page outcome" where
  "initMultilingualAnimation s =
     (let s1 = s\<lparr>prefersReducedMotion := reduce_query s\<rparr> in
      case hero s1 of
        None \<Rightarrow> Returned s1
      | Some e \<Rightarrow>
          let e1 = setAttribute ''aria-label'' ''Company name in multiple languages''
                     (setAttribute ''aria-live'' ''polite'' e) in
          if prefersReducedMotion s1 then
            Returned (s1\<lparr>hero := Some (setAttribute ''lang'' (l_lang (LANGUAGES ! 0))
                                        (e1\<lparr>textContent := l_text (LANGUAGES ! 0)\<rparr>))\<rparr>)
          else startLanguageCycle (s1\<lparr>hero := Some e1\<rparr>))"

definition stopMultilingualAnimation :: "page \<Rightarrow> page" where
  "stopMultilingualAnimation s =
     (case animationInterval s of
        None \<Rightarrow> s
      | Some h \<Rightarrow> if h \<noteq> 0 then (clearInterval h s)\<lparr>animationInterval := None\<rparr> else s)"

text \<open>The callbacks, as the timer table runs them.\<close>

fun run_callback :: "callback \<Rightarrow> page \<Rightarrow> page" where
  "run_callback IntervalTick s =
     (let s1 = s\<lparr>currentLanguageIndex := (currentLanguageIndex s + 1) mod length LANGUAGES\<rparr>
      in animateLanguageChange (currentLanguageIndex s1) s1)"
| "run_callback (FadeSwap languageIndex) s =
     (case hero s of
        None \<Rightarrow> s
      | Some e \<Rightarrow>
          (case updateLanguageText languageIndex e of
             None \<Rightarrow> s
           | Some e' \<Rightarrow>
               snd (setTimeout FadeCleanup FADE_DURATION
                      (s\<lparr>hero := Some (classList_add ''fade-in'' (classList_remove ''fade-out'' e'))\<rparr>))))"
| "run_callback FadeCleanup s = s\<lparr>hero := map_option (classList_remove ''fade-in'') (hero s)\<rparr>"

text \<open>
  The listener that \<open>handleMotionPreferenceChange\<close> registers, called with
  \<open>e.matches\<close>.
\<close>

definition motion_listener_body :: "bool \<Rightarrow> page \<Rightarrow> page outcome" where
  "motion_listener_body matches s =
     (let s1 = s\<lparr>prefersReducedMotion := matches\<rparr> in
      case hero s1 of
        None \<Rightarrow> Returned s1
      | Some _ \<Rightarrow>
          if prefersReducedMotion s1 then
            (let s2 = stopMultilingualAnimation s1 in
             Returned (s2\<lparr>hero := map_option
               (\<lambda>e. classList_remove ''fade-in'' (classList_remove ''fade-out''
                      (setAttribute ''lang'' (l_lang (LANGUAGES ! 0))
                        (e\<lparr>textContent := l_text (LANGUAGES ! 0)\<rparr>)))) (hero s2)\<rparr>))
          else initMultilingualAnimation s1)"

definition handleMotionPreferenceChange :: "page \<Rightarrow> page" where
  "handleMotionPreferenceChange s = s\<lparr>motion_listener := True\<rparr>"

text \<open>
  The part of \<open>init\<close> that concerns the animation: a throw of
  \<open>initMultilingualAnimation\<close> leaves \<open>init\<close> before the listener is registered.
\<close>

definition init :: "page \<Rightarrow> page outcome" where
  "init s =
     (case initMultilingualAnimation s of
        Thrown s' \<Rightarrow> Thrown s'
      | Returned s' \<Rightarrow> Returned (handleMotionPreferenceChange s'))"

text \<open>The \<open>visibilitychange\<close> listener, which reads \<open>document.hidden\<close>.\<close>

definition visibilitychange_listener :: "page \<Rightarrow> page outcome" where
  "visibilitychange_listener s =
     (if doc_hidden s then Returned (stopMultilingualAnimation s)
      else if \<not> prefersReducedMotion s then initMultilingualAnimation s
      else Returned s)"

subsection \<open>The event loop\<close>

text \<open>
  The timer that runs next: the earliest due one, the first armed among equals.
\<close>

fun next_timer :: "timer list \<Rightarrow> timer option" where
  "next_timer [] = None"
| "next_timer (t # ts) =
     (case next_timer ts of
        None \<Rightarrow> Some t
      | Some u \<Rightarrow> if due u < due t then Some u else Some t)"

text \<open>
  Running the next timer: the clock reaches its due time, a timeout leaves the table,
  an interval is re-armed one period later, then the callback runs.
\<close>

definition fire :: "timer \<Rightarrow> page \<Rightarrow> page" where
  "fire t s =
     (let rest = filter (\<lambda>u. timer_id u \<noteq> timer_id t) (timers s);
          rearmed = (case repeat t of None \<Rightarrow> [] | Some p \<Rightarrow> [t\<lparr>due := due t + p\<rparr>])
      in run_callback (callback t) (s\<lparr>now := max (now s) (due t), timers := rest @ rearmed\<rparr>))"

definition fire_next :: "page \<Rightarrow> page" where
  "fire_next s = (case next_timer (timers s) of None \<Rightarrow> s | Some t \<Rightarrow> fire t s)"

text \<open>
  What can happen to the page: the document finishes loading, the tab is hidden or
  shown, the reduced-motion preference changes (the listener runs only once
  registered), the next timer runs. An uncaught throw ends the handler and the page
  lives on.
\<close>

datatype event = DOMContentLoaded | VisibilityChange bool | MotionChange bool | TimerFires

fun dispatch :: "page \<Rightarrow> event \<Rightarrow> page" where
  "dispatch s DOMContentLoaded = settle (init s)"
| "dispatch s (VisibilityChange h) = settle (visibilitychange_listener (s\<lparr>doc_hidden := h\<rparr>))"
| "dispatch s (MotionChange m) =
     (if motion_listener s then settle (motion_listener_body m (s\<lparr>reduce_query := m\<rparr>))
      else s\<lparr>reduce_query := m\<rparr>)"
| "dispatch s TimerFires = fire_next s"

definition run_events :: "page \<Rightarrow> event list \<Rightarrow> page" where
  "run_events s evs = foldl dispatch s evs"

text \<open>
  The page when the script has been evaluated and nothing has run yet; the markup
  (the hero element, if any) and the platform's signals are parameters.
\<close>

definition fresh_page :: "element option \<Rightarrow> bool \<Rightarrow> bool \<Rightarrow> page" where
  "fresh_page h reduced hidden =
     \<lparr>currentLanguageIndex = 0, animationInterval = None, prefersReducedMotion = False,
      hero = h, reduce_query = reduced, doc_hidden = hidden, now = 0, timers = [],
      next_timer_id = 1, motion_listener = False\<rparr>"

definition live_intervals :: "page \<Rightarrow> timer list" where
  "live_intervals s = filter (\<lambda>t. repeat t \<noteq> None) (timers s)"

definition plain_hero :: element where
  "plain_hero = \<lparr>textContent = ''ENIGMA'', attributes = [], classList = []\<rparr>"

section \<open>Both scripts: throttle\<close>

text \<open>
  \<open>throttle(func, limit)\<close> returns a closure over the variable \<open>inThrottle\<close>
  (\<open>undefined\<close> at first, which is falsy). The state of one wrapper is that variable,
  the due times of the pending timeouts \<open>() => inThrottle = false\<close>, and the log of the
  applications of \<open>func\<close>: the time of the call and its arguments. \<open>func\<close> is the
  caller's function; all the wrapper can see of it is whether \<open>func.apply\<close> returns
  (\<open>True\<close>) or throws (\<open>False\<close>), and a throw leaves the wrapper before \<open>inThrottle\<close> is
  set.
\<close>

record 'a throttle_state =
  inThrottle :: bool
  resets :: "nat list"
  invoked :: "(nat \<times> 'a) list"

definition throttle :: "'a throttle_state" where
  "throttle = \<lparr>inThrottle = False, resets = [], invoked = []\<rparr>"

text \<open>The wrapper, called at time \<open>t\<close> with arguments \<open>args\<close>.\<close>

definition throttled :: "('a \<Rightarrow> bool) \<Rightarrow> nat \<Rightarrow> nat \<Rightarrow> 'a \<Rightarrow> 'a throttle_state \<Rightarrow> 'a throttle_state" where
  "throttled func limit t args st =
     (if \<not> inThrottle st then
        (let st1 = st\<lparr>invoked := invoked st @ [(t, args)]\<rparr> in
         if func args then st1\<lparr>inThrottle := True, resets := resets st1 @ [t + limit]\<rparr>
         else st1)
      else st)"

text \<open>
  The timeouts that are due at time \<open>t\<close> run before anything that happens at \<open>t\<close>:
  each sets \<open>inThrottle\<close> to false and leaves the timer table.
\<close>

definition run_resets :: "nat \<Rightarrow> 'a throttle_state \<Rightarrow> 'a throttle_state" where
  "run_resets t st =
     (if \<exists>d \<in> set (resets st). d \<le> t
      then st\<lparr>inThrottle := False, resets := filter (\<lambda>d. t < d) (resets st)\<rparr>
      else st)"

text \<open>A sequence of calls of the wrapper, each with its time, in the order they happen.\<close>

fun run_calls :: "('a \<Rightarrow> bool) \<Rightarrow> nat \<Rightarrow> (nat \<times> 'a) list \<Rightarrow> 'a throttle_state \<Rightarrow> 'a throttle_state" where
  "run_calls func limit [] st = st"
| "run_calls func limit ((t, args) # cs) st =
     run_calls func limit cs (throttled func limit t args (run_resets t st))"

text \<open>
  The leading-edge throttle in the specification's words: the first call executes; a
  later call executes when \<open>limit\<close> milliseconds have elapsed since the last call that
  executed, and is dropped otherwise. \<open>prev\<close> is the time of the last executed call.
\<close>

fun spec_throttle :: "nat \<Rightarrow> nat option \<Rightarrow> (nat \<times> 'a) list \<Rightarrow> (nat \<times> 'a) list" where
  "spec_throttle limit prev [] = []"
| "spec_throttle limit None ((t, args) # cs) = (t, args) # spec_throttle limit (Some t) cs"
| "spec_throttle limit (Some t0) ((t, args) # cs) =
     (if t0 + limit \<le> t then (t, args) # spec_throttle limit (Some t) cs
      else spec_throttle limit (Some t0) cs)"

text \<open>
  How a wrapper's state stands to the last executed call, at a time \<open>tcur\<close> that no
  later call precedes.
\<close>

definition throttle_rel :: "nat \<Rightarrow> nat \<Rightarrow> 'a throttle_state \<Rightarrow> nat option \<Rightarrow> bool" where
  "throttle_rel limit tcur st prev =
     (case prev of
        None \<Rightarrow> \<not> inThrottle st \<and> resets st = []
      | Some t0 \<Rightarrow> (inThrottle st \<and> resets st = [t0 + limit])
                 \<or> (\<not> inThrottle st \<and> resets st = [] \<and> t0 + limit \<le> tcur))"

section \<open>Both scripts: the observers and the statistics counter\<close>

subsection \<open>Numbers and their text\<close>

text \<open>
  The numbers of the counter are JavaScript doubles. The page model of this section
  computes with exact numbers instead: times and progress are rationals, counts are
  integers, \<open>NaN\<close> is \<open>None\<close>. It agrees with the doubles wherever every intermediate
  result is representable (the frames at progress 1/2 and 1 of the sample page below)
  and can differ by the rounding elsewhere (target 500 at 400 ms: the doubles give 243,
  exact arithmetic 244). It serves for what does not depend on the rounding: which
  counters start and when, the order of the numbers displayed, the classes of the
  elements. What one frame writes under the platform's own arithmetic is modelled
  separately, with the operations as parameters. The text of an integer is its decimal
  numeral, as \<open>String(n)\<close> gives it below \<open>10^21\<close>.
\<close>

fun digits_of_nat :: "nat \<Rightarrow> string" where
  "digits_of_nat n =
     (if n < 10 then [char_of (48 + n)]
      else digits_of_nat (n div 10) @ [char_of (48 + n mod 10)])"

declare digits_of_nat.simps [simp del]

definition js_number_text :: "int option \<Rightarrow> string" where
  "js_number_text v =
     (case v of
        None \<Rightarrow> ''NaN''
      | Some n \<Rightarrow> if n < 0 then CHR ''-'' # digits_of_nat (nat (- n)) else digits_of_nat (nat n))"

text \<open>
  \<open>parseInt\<close> without a radix, on ASCII strings and for values a double holds exactly
  (up to \<open>2^53\<close>): leading ASCII white space is skipped, a sign is read, a prefix \<open>0x\<close> or
  \<open>0X\<close> selects radix 16, the longest run of digits is the value, and no digit at all
  is \<open>NaN\<close>.
\<close>

definition is_white_space :: "char \<Rightarrow> bool" where
  "is_white_space c = (c \<in> set (map char_of [9, 10, 11, 12, 13, 32 :: nat]))"

definition digit_value :: "nat \<Rightarrow> char \<Rightarrow> nat option" where
  "digit_value radix c =
     (let k = (of_char c :: nat);
          v = (if 48 \<le> k \<and> k \<le> 57 then Some (k - 48)
               else if 97 \<le> k \<and> k \<le> 122 then Some (k - 87)
               else if 65 \<le> k \<and> k \<le> 90 then Some (k - 55)
               else None)
      in case v of None \<Rightarrow> None | Some d \<Rightarrow> if d < radix then Some d else None)"

definition parseInt :: "string \<Rightarrow> int option" where
  "parseInt str =
     (let s1 = dropWhile is_white_space str;
          negative = (case s1 of c # _ \<Rightarrow> c = CHR ''-'' | [] \<Rightarrow> False);
          s2 = (case s1 of c # r \<Rightarrow> if c = CHR ''-'' \<or> c = CHR ''+'' then r else s1 | [] \<Rightarrow> s1);
          hex = (take 2 s2 = ''0x'' \<or> take 2 s2 = ''0X'');
          radix = (if hex then 16 else 10);
          s3 = (if hex then drop 2 s2 else s2);
          ds = takeWhile (\<lambda>c. digit_value radix c \<noteq> None) s3;
          n = foldl (\<lambda>a c. a * radix + the (digit_value radix c)) 0 ds
      in if ds = [] then None else Some (if negative then - int n else int n))"

subsection \<open>The document of the observers\<close>

text \<open>
  The elements the observers and the counter touch, addressed by their position;
  \<open>STATE.statsAnimated\<close> and \<open>STATE.reducedMotion\<close>; and the callbacks handed to
  \<open>requestAnimationFrame\<close> that wait for the next frame. A callback is one of the
  three closures of the scripts: the deferred \<open>classList.add\<close> of
  \<open>addClassWithAnimation\<close>, \<open>updateNumber\<close> (script.js) and \<open>updateCount\<close> (the other
  script), the last two closing over their element, their parsed target and their
  start time. \<open>started\<close> is a history variable: the counter runs started so far, each
  with its element and its start time.
\<close>

datatype frame_callback =
    AddClass nat string
  | UpdateNumber nat "int option" rat
  | UpdateCount nat "int option" rat

record doc =
  elements :: "element list"
  statsAnimated :: bool
  reducedMotion :: bool
  frame_requests :: "frame_callback list"
  started :: "(nat \<times> rat) list"

record entry =
  isIntersecting :: bool
  target :: nat

definition update_element :: "nat \<Rightarrow> (element \<Rightarrow> element) \<Rightarrow> doc \<Rightarrow> doc" where
  "update_element i f d =
     (if i < length (elements d) then d\<lparr>elements := (elements d)[i := f (elements d ! i)]\<rparr> else d)"

definition has_class :: "nat \<Rightarrow> string \<Rightarrow> doc \<Rightarrow> bool" where
  "has_class i c d = (i < length (elements d) \<and> classList_contains c (elements d ! i))"

text \<open>\<open>document.querySelectorAll('.stat-number')\<close>, in document order.\<close>

definition stat_numbers :: "doc \<Rightarrow> nat list" where
  "stat_numbers d = filter (\<lambda>i. classList_contains ''stat-number'' (elements d ! i)) [0..<length (elements d)]"

definition data_count :: "nat \<Rightarrow> doc \<Rightarrow> int option" where
  "data_count i d =
     parseInt (case getAttribute ''data-count'' (elements d ! i) of None \<Rightarrow> ''null'' | Some v \<Rightarrow> v)"

subsection \<open>The arithmetic of one frame\<close>

definition statsCountDuration :: rat where
  "statsCountDuration = 2000"

definition progress :: "rat \<Rightarrow> rat \<Rightarrow> rat" where
  "progress startTime currentTime = min ((currentTime - startTime) / statsCountDuration) 1"

definition easeOutCubic :: "rat \<Rightarrow> rat" where
  "easeOutCubic p = 1 - (1 - p) ^ 3"

definition currentCount :: "int \<Rightarrow> rat \<Rightarrow> rat \<Rightarrow> int" where
  "currentCount targetCount startTime currentTime =
     \<lfloor>easeOutCubic (progress startTime currentTime) * of_int targetCount\<rfloor>"

text \<open>The suffix of the second script: \<open>targetCount >= 100 ? '+' : ''\<close>; \<open>NaN >= 100\<close> is false.\<close>

definition plus_suffix :: "int option \<Rightarrow> string" where
  "plus_suffix targetCount = (case targetCount of None \<Rightarrow> '''' | Some n \<Rightarrow> if n \<ge> 100 then ''+'' else '''')"

text \<open>
  \<open>updateNumber\<close> of script.js and \<open>updateCount\<close> of the other script, on their element,
  in exact arithmetic: the element after the call, and whether another frame was
  requested.
\<close>

definition updateNumber :: "int option \<Rightarrow> rat \<Rightarrow> rat \<Rightarrow> element \<Rightarrow> element \<times> bool" where
  "updateNumber tgt startTime currentTime stat =
     (let current = map_option (\<lambda>n. currentCount n startTime currentTime) tgt;
          stat1 = stat\<lparr>textContent := js_number_text current\<rparr>
      in if progress startTime currentTime < 1 then (stat1, True)
         else (stat1\<lparr>textContent := js_number_text tgt\<rparr>, False))"

definition updateCount :: "int option \<Rightarrow> rat \<Rightarrow> rat \<Rightarrow> element \<Rightarrow> element \<times> bool" where
  "updateCount targetCount startTime currentTime el =
     (let current = map_option (\<lambda>n. currentCount n startTime currentTime) targetCount;
          el1 = el\<lparr>textContent := js_number_text current @ plus_suffix targetCount\<rparr>
      in if progress startTime currentTime < 1 then (el1, True)
         else (el1\<lparr>textContent := js_number_text targetCount @ plus_suffix targetCount\<rparr>, False))"

text \<open>
  The numbers one counter writes into its element over the frames it sees: the loop
  of \<open>requestAnimationFrame\<close> calls as a recursion over the timestamps of the frames.
  The last frame writes twice, the running count and then the target.
\<close>

fun displayed_counts :: "int \<Rightarrow> rat \<Rightarrow> rat list \<Rightarrow> int list" where
  "displayed_counts n startTime [] = []"
| "displayed_counts n startTime (t # ts) =
     (if progress startTime t < 1 then currentCount n startTime t # displayed_counts n startTime ts
      else [currentCount n startTime t, n])"

subsection \<open>Starting the counters\<close>

text \<open>
  \<open>animateStats\<close> (script.js) and \<open>animateStatistics\<close> (the other script), called when
  \<open>performance.now()\<close> is \<open>tnow\<close>: one frame callback per element of class
  \<open>stat-number\<close>.
\<close>

definition animateStats :: "rat \<Rightarrow> doc \<Rightarrow> doc" where
  "animateStats tnow d =
     d\<lparr>frame_requests := frame_requests d @ map (\<lambda>i. UpdateNumber i (data_count i d) tnow) (stat_numbers d),
       started := started d @ map (\<lambda>i. (i, tnow)) (stat_numbers d)\<rparr>"

definition animateStatistics :: "rat \<Rightarrow> doc \<Rightarrow> doc" where
  "animateStatistics tnow d =
     d\<lparr>frame_requests := frame_requests d @ map (\<lambda>i. UpdateCount i (data_count i d) tnow) (stat_numbers d),
       started := started d @ map (\<lambda>i. (i, tnow)) (stat_numbers d)\<rparr>"

definition addClassWithAnimation :: "nat \<Rightarrow> string \<Rightarrow> doc \<Rightarrow> doc" where
  "addClassWithAnimation i className d =
     (if reducedMotion d then update_element i (classList_add className) d
      else d\<lparr>frame_requests := frame_requests d @ [AddClass i className]\<rparr>)"

subsection \<open>The observer callbacks\<close>

text \<open>The callback of \<open>initStatsCounter\<close> (script.js).\<close>

definition initStatsCounter_callback :: "rat \<Rightarrow> entry list \<Rightarrow> doc \<Rightarrow> doc" where
  "initStatsCounter_callback tnow entries d =
     foldl (\<lambda>d en. if isIntersecting en \<and> \<not> statsAnimated d
                    then animateStats tnow (d\<lparr>statsAnimated := True\<rparr>) else d) d entries"

text \<open>The callback of \<open>initScrollAnimations\<close> (script.js).\<close>

definition initScrollAnimations_callback :: "entry list \<Rightarrow> doc \<Rightarrow> doc" where
  "initScrollAnimations_callback entries d =
     foldl (\<lambda>d en. if isIntersecting en
                    then update_element (target en) (classList_add ''visible'') d else d) d entries"

text \<open>The callback of \<open>setupIntersectionObserver\<close> (the other script).\<close>

definition setupIntersectionObserver_callback :: "rat \<Rightarrow> entry list \<Rightarrow> doc \<Rightarrow> doc" where
  "setupIntersectionObserver_callback tnow entries d =
     foldl (\<lambda>d en.
        if isIntersecting en then
          (let d1 = addClassWithAnimation (target en) ''visible'' d in
           if has_class (target en) ''stats-container'' d1 \<and> \<not> statsAnimated d1
           then (animateStatistics tnow d1)\<lparr>statsAnimated := True\<rparr>
           else d1)
        else d) d entries"

subsection \<open>Animation frames\<close>

fun run_frame_callback :: "rat \<Rightarrow> doc \<Rightarrow> frame_callback \<Rightarrow> doc" where
  "run_frame_callback ts d (AddClass i className) = update_element i (classList_add className) d"
| "run_frame_callback ts d (UpdateNumber i tgt startTime) =
     (if i < length (elements d) then
        (case updateNumber tgt startTime ts (elements d ! i) of
           (e, again) \<Rightarrow>
             d\<lparr>elements := (elements d)[i := e],
               frame_requests := frame_requests d @ (if again then [UpdateNumber i tgt startTime] else [])\<rparr>)
      else d)"
| "run_frame_callback ts d (UpdateCount i tgt startTime) =
     (if i < length (elements d) then
        (case updateCount tgt startTime ts (elements d ! i) of
           (e, again) \<Rightarrow>
             d\<lparr>elements := (elements d)[i := e],
               frame_requests := frame_requests d @ (if again then [UpdateCount i tgt startTime] else [])\<rparr>)
      else d)"

text \<open>
  A frame with timestamp \<open>ts\<close> runs the callbacks that were waiting, in order; what they
  request waits for the next frame.
\<close>

definition run_frame :: "rat \<Rightarrow> doc \<Rightarrow> doc" where
  "run_frame ts d = foldl (run_frame_callback ts) (d\<lparr>frame_requests := []\<rparr>) (frame_requests d)"

subsection \<open>What happens to the document\<close>

text \<open>
  script.js: the statistics observer reports entries, the scroll-animation observer
  reports entries, a frame runs.
\<close>

datatype script_event = StatsObserved rat "entry list" | ScrollObserved "entry list" | ScriptFrame rat

fun script_dispatch :: "doc \<Rightarrow> script_event \<Rightarrow> doc" where
  "script_dispatch d (StatsObserved tnow entries) = initStatsCounter_callback tnow entries d"
| "script_dispatch d (ScrollObserved entries) = initScrollAnimations_callback entries d"
| "script_dispatch d (ScriptFrame ts) = run_frame ts d"

text \<open>
  The other script: the one observer reports entries, a frame runs, the reduced-motion
  preference changes (the listener of \<open>initAccessibility\<close> stores it in
  \<open>STATE.reducedMotion\<close>).
\<close>

datatype app_event = Observed rat "entry list" | AppFrame rat | MotionPreference bool

fun app_dispatch :: "doc \<Rightarrow> app_event \<Rightarrow> doc" where
  "app_dispatch d (Observed tnow entries) = setupIntersectionObserver_callback tnow entries d"
| "app_dispatch d (AppFrame ts) = run_frame ts d"
| "app_dispatch d (MotionPreference m) = d\<lparr>reducedMotion := m\<rparr>"



text \<open>A small document: a revealed section, the statistics container and two counters.\<close>

definition sample_doc :: doc where
  "sample_doc =
     \<lparr>elements =
        [\<lparr>textContent = ''About'', attributes = [], classList = [''fade-in-up'']\<rparr>,
         \<lparr>textContent = '''', attributes = [], classList = [''stats-container'']\<rparr>,
         \<lparr>textContent = ''0'', attributes = [(''data-count'', ''500'')], classList = [''stat-number'']\<rparr>,
         \<lparr>textContent = ''0'', attributes = [(''data-count'', ''50'')], classList = [''stat-number'']\<rparr>],
      statsAnimated = False, reducedMotion = False, frame_requests = [], started = []\<rparr>"

subsection \<open>The frame of a counter over the platform's numbers\<close>

text \<open>
  The counts and times of the scripts are JavaScript Numbers, and what a frame writes
  is the result of the platform's operations on them, each rounded as the platform
  rounds it (\<open>Math.pow\<close> is implementation-approximated). For the text of a frame the
  Number type and the operations the two functions use are parameters: numeric
  literals, \<open>-\<close>, \<open>/\<close>, \<open>*\<close>, \<open>Math.min\<close>, \<open>Math.pow\<close>, \<open>Math.floor\<close>, \<open><\<close>, \<open>>=\<close> and the
  conversion of a Number to a string, which both \<open>n + ''\<close> and the assignment of a
  Number to \<open>textContent\<close> perform.
\<close>

record 'n number_ops =
  js_literal :: "int \<Rightarrow> 'n"
  js_minus :: "'n \<Rightarrow> 'n \<Rightarrow> 'n"
  js_divide :: "'n \<Rightarrow> 'n \<Rightarrow> 'n"
  js_times :: "'n \<Rightarrow> 'n \<Rightarrow> 'n"
  Math_min :: "'n \<Rightarrow> 'n \<Rightarrow> 'n"
  Math_pow :: "'n \<Rightarrow> 'n \<Rightarrow> 'n"
  Math_floor :: "'n \<Rightarrow> 'n"
  js_less :: "'n \<Rightarrow> 'n \<Rightarrow> bool"
  js_greater_eq :: "'n \<Rightarrow> 'n \<Rightarrow> bool"
  js_to_string :: "'n \<Rightarrow> string"

text \<open>
  \<open>updateNumber\<close> of script.js, with \<open>target\<close>, \<open>duration\<close> and \<open>startTime\<close> of its closure.
\<close>

definition updateNumber_on :: "'n number_ops \<Rightarrow> 'n \<Rightarrow> 'n \<Rightarrow> 'n \<Rightarrow> element \<Rightarrow> element \<times> bool" where
  "updateNumber_on ops tgt startTime currentTime stat =
     (let duration = js_literal ops 2000;
          elapsed = js_minus ops currentTime startTime;
          prog = Math_min ops (js_divide ops elapsed duration) (js_literal ops 1);
          easeOut = js_minus ops (js_literal ops 1)
                      (Math_pow ops (js_minus ops (js_literal ops 1) prog) (js_literal ops 3));
          current = Math_floor ops (js_times ops tgt easeOut);
          stat1 = stat\<lparr>textContent := js_to_string ops current\<rparr>
      in if js_less ops prog (js_literal ops 1) then (stat1, True)
         else (stat1\<lparr>textContent := js_to_string ops tgt\<rparr>, False))"

text \<open>
  \<open>updateCount\<close> of the other script, with \<open>targetCount\<close>, \<open>duration\<close> and \<open>startTime\<close> of
  its closure.
\<close>

definition updateCount_on :: "'n number_ops \<Rightarrow> 'n \<Rightarrow> 'n \<Rightarrow> 'n \<Rightarrow> element \<Rightarrow> element \<times> bool" where
  "updateCount_on ops targetCount startTime currentTime el =
     (let duration = js_literal ops 2000;
          elapsed = js_minus ops currentTime startTime;
          prog = Math_min ops (js_divide ops elapsed duration) (js_literal ops 1);
          easedProgress = js_minus ops (js_literal ops 1)
                            (Math_pow ops (js_minus ops (js_literal ops 1) prog) (js_literal ops 3));
          running = Math_floor ops (js_times ops easedProgress targetCount);
          el1 = el\<lparr>textContent := js_to_string ops running @
                  (if js_greater_eq ops targetCount (js_literal ops 100) then ''+'' else '''')\<rparr>
      in if js_less ops prog (js_literal ops 1) then (el1, True)
         else (el1\<lparr>textContent := js_to_string ops targetCount @
                  (if js_greater_eq ops targetCount (js_literal ops 100) then ''+'' else '''')\<rparr>, False))"

text \<open>
  Exact arithmetic as one choice of the operations: a Number is a rational, or \<open>NaN\<close>
  (\<open>None\<close>), which every operation propagates and every comparison rejects; the
  infinities are left out, so a division by zero is \<open>NaN\<close> here, and so is a power
  whose exponent is not a natural number. The string of a Number is the numeral of
  its integer part: the counters print integers and \<open>NaN\<close> only.
\<close>

definition exact_binary :: "(rat \<Rightarrow> rat \<Rightarrow> rat) \<Rightarrow> rat option \<Rightarrow> rat option \<Rightarrow> rat option" where
  "exact_binary f a b = (case a of None \<Rightarrow> None | Some x \<Rightarrow> (case b of None \<Rightarrow> None | Some y \<Rightarrow> Some (f x y)))"

definition exact_compare :: "(rat \<Rightarrow> rat \<Rightarrow> bool) \<Rightarrow> rat option \<Rightarrow> rat option \<Rightarrow> bool" where
  "exact_compare r a b = (case a of None \<Rightarrow> False | Some x \<Rightarrow> (case b of None \<Rightarrow> False | Some y \<Rightarrow> r x y))"

definition exact_ops :: "rat option number_ops" where
  "exact_ops =
     \<lparr>js_literal = (\<lambda>i. Some (of_int i)),
      js_minus = exact_binary (\<lambda>x y. x - y),
      js_divide = (\<lambda>a b. if b = Some 0 then None else exact_binary (\<lambda>x y. x / y) a b),
      js_times = exact_binary (\<lambda>x y. x * y),
      Math_min = exact_binary min,
      Math_pow = (\<lambda>a b. case b of None \<Rightarrow> None
                   | Some y \<Rightarrow> if 0 \<le> y \<and> y = of_int \<lfloor>y\<rfloor> then exact_binary (\<lambda>x _. x ^ nat \<lfloor>y\<rfloor>) a b
                             else None),
      Math_floor = map_option (\<lambda>x. of_int \<lfloor>x\<rfloor>),
      js_less = exact_compare (\<lambda>x y. x < y),
      js_greater_eq = exact_compare (\<lambda>x y. x \<ge> y),
      js_to_string = (\<lambda>v. js_number_text (map_option floor v))\<rparr>"

subsection \<open>Named states and invariants of the animation\<close>

text \<open>
  The page that stays static under reduced motion: the preference is set, the module
  variable agrees, and no timer exists.
\<close>

definition static_page :: "page \<Rightarrow> bool" where
  "static_page s = (reduce_query s \<and> prefersReducedMotion s \<and> animationInterval s = None \<and> timers s = [])"

text \<open>
  The page between two transitions of an undisturbed cycle: one interval with handle
  \<open>h\<close>, due at \<open>d\<close>, is the only timer, and the hero element shows entry \<open>j\<close>.
\<close>

definition cycling :: "nat \<Rightarrow> nat \<Rightarrow> nat \<Rightarrow> page \<Rightarrow> bool" where
  "cycling h d j s =
     (timers s = [\<lparr>timer_id = h, due = d, repeat = Some ANIMATION_INTERVAL, callback = IntervalTick\<rparr>]
      \<and> now s \<le> d \<and> h < next_timer_id s \<and> animationInterval s = Some h
      \<and> currentLanguageIndex s = j \<and> j < length LANGUAGES
      \<and> (case hero s of None \<Rightarrow> False
          | Some e \<Rightarrow> textContent e = l_text (LANGUAGES ! j)
              \<and> getAttribute ''lang'' e = Some (l_lang (LANGUAGES ! j))
              \<and> getAttribute ''aria-label'' e = Some (l_label (LANGUAGES ! j) @ '': '' @ l_text (LANGUAGES ! j))))"

text \<open>
  A page loaded in a visible tab with motion allowed, and the same page after the
  first tick and the first text swap (in the middle of the fade-in).
\<close>

definition loaded_page :: page where
  "loaded_page = dispatch (fresh_page (Some plain_hero) False False) DOMContentLoaded"

definition mid_fade_page :: page where
  "mid_fade_page = run_events (fresh_page (Some plain_hero) False False)
     [DOMContentLoaded, TimerFires, TimerFires]"

subsection \<open>Invariants of the document\<close>




text \<open>One step of the callback of \<open>setupIntersectionObserver\<close>.\<close>

definition observer_step :: "rat \<Rightarrow> doc \<Rightarrow> entry \<Rightarrow> doc" where
  "observer_step tnow d en =
     (if isIntersecting en then
          (let d1 = addClassWithAnimation (target en) ''visible'' d in
           if has_class (target en) ''stats-container'' d1 \<and> \<not> statsAnimated d1
           then (animateStatistics tnow d1)\<lparr>statsAnimated := True\<rparr>
           else d1)
        else d)"

section \<open>Properties of the multilingual animation\<close>

subsection \<open>Elements\<close>

lemma length_LANGUAGES: "length LANGUAGES = 6"
  by (simp add: LANGUAGES_def)

lemma mod_length_LANGUAGES: "n mod length LANGUAGES < length LANGUAGES"
  by (simp add: length_LANGUAGES)

lemma getAttribute_setAttribute:
  "getAttribute k (setAttribute k' v e) = (if k = k' then Some v else getAttribute k e)"
  by (simp add: getAttribute_def setAttribute_def update_conv')

lemma textContent_setAttribute: "textContent (setAttribute k v e) = textContent e"
  by (simp add: setAttribute_def)

lemma classList_setAttribute: "classList (setAttribute k v e) = classList e"
  by (simp add: setAttribute_def)

lemma getAttribute_classList_add: "getAttribute k (classList_add c e) = getAttribute k e"
  by (simp add: getAttribute_def classList_add_def)

lemma getAttribute_classList_remove: "getAttribute k (classList_remove c e) = getAttribute k e"
  by (simp add: getAttribute_def classList_remove_def)

lemma textContent_classList_add: "textContent (classList_add c e) = textContent e"
  by (simp add: classList_add_def)

lemma textContent_classList_remove: "textContent (classList_remove c e) = textContent e"
  by (simp add: classList_remove_def)

lemma getAttribute_textContent_update: "getAttribute k (e\<lparr>textContent := x\<rparr>) = getAttribute k e"
  by (simp add: getAttribute_def)

lemmas element_simps = getAttribute_setAttribute textContent_setAttribute classList_setAttribute
  getAttribute_classList_add getAttribute_classList_remove textContent_classList_add
  textContent_classList_remove getAttribute_textContent_update

lemma classList_contains_remove_same: "\<not> classList_contains c (classList_remove c e)"
  by (simp add: classList_contains_def classList_remove_def)

lemma classList_contains_remove_other:
  "classList_contains c (classList_remove c' e) = (c \<noteq> c' \<and> classList_contains c e)"
  by (auto simp: classList_contains_def classList_remove_def)

lemma classList_contains_add:
  "classList_contains c (classList_add c' e) = (c = c' \<or> classList_contains c e)"
  by (auto simp: classList_contains_def classList_add_def)

lemma classList_contains_setAttribute:
  "classList_contains c (setAttribute k v e) = classList_contains c e"
  by (simp add: classList_contains_def setAttribute_def)

lemma classList_contains_textContent_update:
  "classList_contains c (e\<lparr>textContent := x\<rparr>) = classList_contains c e"
  by (simp add: classList_contains_def)

lemmas class_simps = classList_contains_remove_other classList_contains_add
  classList_contains_setAttribute classList_contains_textContent_update

text \<open>The definitions a concrete run of the page unfolds.\<close>

lemmas eval_defs = run_events_def fresh_page_def init_def initMultilingualAnimation_def plain_hero_def
  startLanguageCycle_def updateLanguageText_def LANGUAGES_def setInterval_def
  handleMotionPreferenceChange_def setAttribute_def ANIMATION_INTERVAL_def FADE_DURATION_def
  fire_next_def fire_def animateLanguageChange_def setTimeout_def classList_add_def
  classList_remove_def classList_contains_def Let_def

subsection \<open>One interval at a time\<close>

text \<open>
  Claim C1 says that at most one interval drives the animation at any time and that
  the handle \<open>animationInterval\<close> always names it. \<open>startLanguageCycle\<close> overwrites the
  handle without clearing the interval it named. A page loaded in a background tab
  (\<open>document.hidden\<close> true at \<open>DOMContentLoaded\<close>) starts interval 1; when the tab is
  shown, the \<open>visibilitychange\<close> listener starts interval 2 beside it. Hiding the tab
  again clears interval 2 only: interval 1 runs on with the handle null. The same
  happens in a tab loaded visible when the preference is switched on and off while the
  tab is hidden and the tab is then shown.
\<close>

theorem C1_second_interval_attached:
  "map timer_id (live_intervals (run_events (fresh_page (Some plain_hero) False True)
       [DOMContentLoaded, VisibilityChange False])) = [1, 2]
   \<and> animationInterval (run_events (fresh_page (Some plain_hero) False True)
       [DOMContentLoaded, VisibilityChange False]) = Some 2
   \<and> map timer_id (live_intervals (run_events (fresh_page (Some plain_hero) False True)
       [DOMContentLoaded, VisibilityChange False, VisibilityChange True])) = [1]
   \<and> animationInterval (run_events (fresh_page (Some plain_hero) False True)
       [DOMContentLoaded, VisibilityChange False, VisibilityChange True]) = None
   \<and> map timer_id (live_intervals (run_events (fresh_page (Some plain_hero) False False)
       [DOMContentLoaded, VisibilityChange True, MotionChange True, MotionChange False,
        VisibilityChange False])) = [2, 3]"
  by (simp add: run_events_def fresh_page_def init_def initMultilingualAnimation_def plain_hero_def
     startLanguageCycle_def updateLanguageText_def LANGUAGES_def setInterval_def
     handleMotionPreferenceChange_def visibilitychange_listener_def live_intervals_def
     setAttribute_def ANIMATION_INTERVAL_def stopMultilingualAnimation_def clearInterval_def
     motion_listener_body_def classList_remove_def Let_def)

subsection \<open>The fade choreography\<close>

text \<open>
  Claim C3, as stated, puts the removal of the fade-in class at the remaining fade
  duration after the swap (half of \<open>FADE_DURATION\<close>, 400 ms). On a page loaded at time
  0 the first tick applies fade-out at 3000 and the swap runs at 3400, but the fade-in
  class is still on the element until 4200: the cleanup is scheduled a whole
  \<open>FADE_DURATION\<close> after the swap.
\<close>

theorem C3_cleanup_delay_counterexample:
  "now (fire_next loaded_page) = 3000
   \<and> map_option classList (hero (fire_next loaded_page)) = Some [''fade-out'']
   \<and> now (fire_next (fire_next loaded_page)) = 3000 + FADE_DURATION div 2
   \<and> map_option classList (hero (fire_next (fire_next loaded_page))) = Some [''fade-in'']
   \<and> map due (timers (fire_next (fire_next loaded_page))) = [6000, 4200]
   \<and> map_option classList (hero (fire_next (fire_next (fire_next loaded_page)))) = Some []
   \<and> now (fire_next (fire_next (fire_next loaded_page))) \<noteq>
       now (fire_next (fire_next loaded_page)) + (FADE_DURATION - FADE_DURATION div 2)"
  by (simp add: loaded_page_def eval_defs)

text \<open>
  Claim C3, amended. A tick of the interval at time \<open>now s\<close> applies fade-out and leaves
  the text, the lang attribute and the label as they were; the swap is due half of
  \<open>FADE_DURATION\<close> later and, when it runs, writes the text, the lang attribute and the
  label of the next entry, removes fade-out and applies fade-in; the cleanup is due a
  whole \<open>FADE_DURATION\<close> after the swap and removes fade-in.
\<close>

theorem C3_fade_choreography:
  assumes "hero s = Some e"
  shows "let j = (currentLanguageIndex s + 1) mod length LANGUAGES;
             s1 = run_callback IntervalTick s;
             swap = \<lparr>timer_id = next_timer_id s, due = now s + FADE_DURATION div 2,
                     repeat = None, callback = FadeSwap j\<rparr>;
             s2 = fire swap s1;
             cleanup = \<lparr>timer_id = next_timer_id s + 1,
                        due = now s + FADE_DURATION div 2 + FADE_DURATION,
                        repeat = None, callback = FadeCleanup\<rparr>;
             s3 = fire cleanup s2
         in (\<exists>e1. hero s1 = Some e1 \<and> classList_contains ''fade-out'' e1
                \<and> textContent e1 = textContent e
                \<and> getAttribute ''lang'' e1 = getAttribute ''lang'' e
                \<and> getAttribute ''aria-label'' e1 = getAttribute ''aria-label'' e)
          \<and> timers s1 = timers s @ [swap]
          \<and> now s2 = now s + FADE_DURATION div 2
          \<and> (\<exists>e2. hero s2 = Some e2
                \<and> textContent e2 = l_text (LANGUAGES ! j)
                \<and> getAttribute ''lang'' e2 = Some (l_lang (LANGUAGES ! j))
                \<and> getAttribute ''aria-label'' e2 =
                    Some (l_label (LANGUAGES ! j) @ '': '' @ l_text (LANGUAGES ! j))
                \<and> \<not> classList_contains ''fade-out'' e2
                \<and> classList_contains ''fade-in'' e2)
          \<and> timers s2 = filter (\<lambda>u. timer_id u \<noteq> next_timer_id s) (timers s) @ [cleanup]
          \<and> now s3 = now s + FADE_DURATION div 2 + FADE_DURATION
          \<and> (\<exists>e3. hero s3 = Some e3
                \<and> textContent e3 = l_text (LANGUAGES ! j)
                \<and> \<not> classList_contains ''fade-in'' e3)"
  using assms mod_length_LANGUAGES[of "currentLanguageIndex s + 1"]
  by (simp add: Let_def fire_def animateLanguageChange_def setTimeout_def updateLanguageText_def
      element_simps class_simps classList_contains_remove_same max_def)

theorem C3_fade_choreography_witness:
  "now (fire \<lparr>timer_id = 2, due = 3400, repeat = None, callback = FadeSwap 1\<rparr>
          (run_callback IntervalTick (loaded_page\<lparr>now := 3000\<rparr>))) = 3400
   \<and> now (fire \<lparr>timer_id = 3, due = 4200, repeat = None, callback = FadeCleanup\<rparr>
        (fire \<lparr>timer_id = 2, due = 3400, repeat = None, callback = FadeSwap 1\<rparr>
          (run_callback IntervalTick (loaded_page\<lparr>now := 3000\<rparr>)))) = 4200"
  using C3_fade_choreography[of "loaded_page\<lparr>now := 3000\<rparr>"
      "\<lparr>textContent = ''ENIGMA'',
        attributes = [(''aria-live'', ''polite''), (''aria-label'', ''English: ENIGMA''), (''lang'', ''en'')],
        classList = []\<rparr>"]
  unfolding Let_def
  by (simp add: loaded_page_def eval_defs)

subsection \<open>The index of the cycle\<close>

lemma cycling_loaded:
  "cycling 1 ANIMATION_INTERVAL 0 (dispatch (fresh_page (Some e) False hid) DOMContentLoaded)"
  by (simp add: cycling_def fresh_page_def init_def initMultilingualAnimation_def Let_def
      startLanguageCycle_def updateLanguageText_def setInterval_def handleMotionPreferenceChange_def
      length_LANGUAGES getAttribute_setAttribute textContent_setAttribute)

text \<open>One period of an undisturbed cycle is three timer callbacks: tick, swap, cleanup.\<close>

lemma cycling_period:
  assumes "cycling h d j s"
  shows "cycling h (d + ANIMATION_INTERVAL) ((j + 1) mod length LANGUAGES) (fire_next (fire_next (fire_next s)))
       \<and> now (fire_next (fire_next (fire_next s))) = d + FADE_DURATION div 2 + FADE_DURATION"
proof -
  obtain e where e: "hero s = Some e" using assms by (auto simp: cycling_def split: option.splits)
  have t: "timers s = [\<lparr>timer_id = h, due = d, repeat = Some ANIMATION_INTERVAL, callback = IntervalTick\<rparr>]"
    and n: "now s \<le> d" and h: "h < next_timer_id s" and a: "animationInterval s = Some h"
    and i: "currentLanguageIndex s = j"
    using assms by (auto simp: cycling_def)
  show ?thesis
    using e t n h a i mod_length_LANGUAGES[of "j + 1"]
    by (simp add: cycling_def fire_next_def fire_def animateLanguageChange_def setTimeout_def
        updateLanguageText_def Let_def ANIMATION_INTERVAL_def FADE_DURATION_def
        element_simps max_def)
qed

lemma cycling_periods:
  "cycling 1 ((N + 1) * ANIMATION_INTERVAL) (N mod length LANGUAGES)
     ((fire_next ^^ (3 * N)) (dispatch (fresh_page (Some e) False hid) DOMContentLoaded))
   \<and> now ((fire_next ^^ (3 * N)) (dispatch (fresh_page (Some e) False hid) DOMContentLoaded)) =
       (if N = 0 then 0 else N * ANIMATION_INTERVAL + FADE_DURATION div 2 + FADE_DURATION)"
proof (induction N)
  case 0
  show ?case using cycling_loaded[of e hid]
    by (simp add: fresh_page_def init_def initMultilingualAnimation_def Let_def
      startLanguageCycle_def updateLanguageText_def setInterval_def handleMotionPreferenceChange_def
      length_LANGUAGES)
next
  case (Suc N)
  let ?s = "(fire_next ^^ (3 * N)) (dispatch (fresh_page (Some e) False hid) DOMContentLoaded)"
  have eq: "(fire_next ^^ (3 * Suc N)) (dispatch (fresh_page (Some e) False hid) DOMContentLoaded)
      = fire_next (fire_next (fire_next ?s))"
    by (simp add: numeral_3_eq_3)
  have c: "cycling 1 ((N + 1) * ANIMATION_INTERVAL) (N mod length LANGUAGES) ?s"
    using Suc.IH by simp
  have m: "(N mod length LANGUAGES + 1) mod length LANGUAGES = Suc N mod length LANGUAGES"
    by (simp add: mod_Suc_eq)
  show ?case
    using cycling_period[OF c] unfolding eq m
    by (simp add: algebra_simps)
qed

text \<open>No handler and no callback takes the index out of range.\<close>

lemma index_dispatch:
  assumes "currentLanguageIndex s < length LANGUAGES"
  shows "currentLanguageIndex (dispatch s ev) < length LANGUAGES"
proof (cases ev)
  case DOMContentLoaded
  with assms show ?thesis
    by (auto simp: init_def initMultilingualAnimation_def Let_def startLanguageCycle_def
        setInterval_def handleMotionPreferenceChange_def split: option.splits)
next
  case (VisibilityChange h)
  with assms show ?thesis
    by (auto simp: visibilitychange_listener_def stopMultilingualAnimation_def clearInterval_def
        initMultilingualAnimation_def Let_def startLanguageCycle_def
        setInterval_def split: option.splits)
next
  case (MotionChange m)
  with assms show ?thesis
    by (auto simp: motion_listener_body_def stopMultilingualAnimation_def clearInterval_def
        initMultilingualAnimation_def Let_def startLanguageCycle_def
        setInterval_def split: option.splits)
next
  case TimerFires
  show ?thesis
  proof (cases "next_timer (timers s)")
    case None
    with assms TimerFires show ?thesis by (simp add: fire_next_def)
  next
    case (Some t)
    with assms TimerFires mod_length_LANGUAGES show ?thesis
      by (cases "callback t")
         (auto simp: fire_next_def fire_def Let_def animateLanguageChange_def setTimeout_def
          split: option.splits)
  qed
qed

lemma index_run_events:
  "currentLanguageIndex s < length LANGUAGES \<Longrightarrow> currentLanguageIndex (run_events s evs) < length LANGUAGES"
  unfolding run_events_def
  by (induction evs arbitrary: s) (auto simp: index_dispatch)

text \<open>
  Claim C6. The tick of the interval advances \<open>currentLanguageIndex\<close> by one modulo the
  length of \<open>LANGUAGES\<close>; whatever events reach the page, the index stays a valid index
  into \<open>LANGUAGES\<close>; and on a page loaded with motion allowed and then left to its
  timers, after \<open>N\<close> full periods (each a tick, its swap and its cleanup, that is
  \<open>3 * N\<close> timer callbacks) the index is \<open>N mod length\<close>, the element shows the text, the
  lang attribute and the label of that entry, and the one interval is due for tick
  \<open>N + 1\<close>.
\<close>

theorem C6_index_cycles:
  "currentLanguageIndex (run_callback IntervalTick s) =
     (currentLanguageIndex s + 1) mod length LANGUAGES
   \<and> currentLanguageIndex (run_events (fresh_page h r hid) evs) < length LANGUAGES
   \<and> (let sN = (fire_next ^^ (3 * N)) (dispatch (fresh_page (Some e) False hid) DOMContentLoaded);
          entry = LANGUAGES ! (N mod length LANGUAGES)
      in currentLanguageIndex sN = N mod length LANGUAGES
         \<and> (\<exists>e'. hero sN = Some e' \<and> textContent e' = l_text entry
               \<and> getAttribute ''lang'' e' = Some (l_lang entry)
               \<and> getAttribute ''aria-label'' e' = Some (l_label entry @ '': '' @ l_text entry))
         \<and> timers sN = [\<lparr>timer_id = 1, due = (N + 1) * ANIMATION_INTERVAL,
                          repeat = Some ANIMATION_INTERVAL, callback = IntervalTick\<rparr>]
         \<and> now sN = (if N = 0 then 0 else N * ANIMATION_INTERVAL + FADE_DURATION div 2 + FADE_DURATION))"
proof -
  have 1: "currentLanguageIndex (run_callback IntervalTick s) =
     (currentLanguageIndex s + 1) mod length LANGUAGES"
    by (simp add: Let_def animateLanguageChange_def setTimeout_def)
  have "currentLanguageIndex (fresh_page h r hid) < length LANGUAGES"
    by (simp add: fresh_page_def length_LANGUAGES)
  then have 2: "currentLanguageIndex (run_events (fresh_page h r hid) evs) < length LANGUAGES"
    by (rule index_run_events)
  have 3: "cycling 1 ((N + 1) * ANIMATION_INTERVAL) (N mod length LANGUAGES)
     ((fire_next ^^ (3 * N)) (dispatch (fresh_page (Some e) False hid) DOMContentLoaded))"
    and 4: "now ((fire_next ^^ (3 * N)) (dispatch (fresh_page (Some e) False hid) DOMContentLoaded)) =
       (if N = 0 then 0 else N * ANIMATION_INTERVAL + FADE_DURATION div 2 + FADE_DURATION)"
    using cycling_periods[of N e hid] by blast+
  show ?thesis
    using 1 2 3 4 unfolding Let_def cycling_def
    by (auto split: option.splits)
qed

subsection \<open>Reduced motion\<close>

lemma initMultilingualAnimation_reduced:
  assumes "reduce_query s" and "hero s = Some e"
  shows "\<exists>e'. settle (initMultilingualAnimation s) = s\<lparr>prefersReducedMotion := True, hero := Some e'\<rparr>
     \<and> textContent e' = l_text (LANGUAGES ! 0)
     \<and> getAttribute ''lang'' e' = Some (l_lang (LANGUAGES ! 0))"
  using assms
  by (intro exI[of _ "setAttribute ''lang'' (l_lang (LANGUAGES ! 0))
         ((setAttribute ''aria-label'' ''Company name in multiple languages''
            (setAttribute ''aria-live'' ''polite'' e))\<lparr>textContent := l_text (LANGUAGES ! 0)\<rparr>)"])
     (simp add: initMultilingualAnimation_def Let_def getAttribute_setAttribute textContent_setAttribute)

lemma static_page_dispatch:
  assumes "static_page s" and "ev \<noteq> MotionChange False"
  shows "static_page (dispatch s ev)"
proof (cases ev)
  case DOMContentLoaded
  with assms show ?thesis
    by (auto simp: static_page_def init_def initMultilingualAnimation_def Let_def
        handleMotionPreferenceChange_def split: option.splits)
next
  case (VisibilityChange h)
  with assms show ?thesis
    by (auto simp: static_page_def visibilitychange_listener_def stopMultilingualAnimation_def)
next
  case (MotionChange m)
  with assms show ?thesis
    by (auto simp: static_page_def motion_listener_body_def stopMultilingualAnimation_def Let_def
        split: option.splits)
next
  case TimerFires
  with assms show ?thesis
    by (auto simp: static_page_def fire_next_def)
qed

lemma static_page_run_events:
  "static_page s \<Longrightarrow> MotionChange False \<notin> set evs \<Longrightarrow> static_page (run_events s evs)"
  unfolding run_events_def
  by (induction evs arbitrary: s) (auto simp: static_page_dispatch)

text \<open>
  Claim C7. When the reduced-motion preference is set and \<open>initMultilingualAnimation\<close>
  runs on a page that has a hero element and no timer yet, the element shows the text
  and the lang attribute of \<open>LANGUAGES[0]\<close>, the handle stays null and the timer table
  stays empty; and they stay so under every later event of the session, as long as the
  preference does not change back to full motion.
\<close>

theorem C7_reduced_motion_at_init:
  assumes "reduce_query s" and "hero s = Some e"
    and "animationInterval s = None" and "timers s = []"
    and "MotionChange False \<notin> set evs"
  shows "(\<exists>e'. hero (settle (initMultilingualAnimation s)) = Some e'
            \<and> textContent e' = l_text (LANGUAGES ! 0)
            \<and> getAttribute ''lang'' e' = Some (l_lang (LANGUAGES ! 0)))
       \<and> animationInterval (settle (initMultilingualAnimation s)) = None
       \<and> timers (settle (initMultilingualAnimation s)) = []
       \<and> animationInterval (run_events (settle (initMultilingualAnimation s)) evs) = None
       \<and> timers (run_events (settle (initMultilingualAnimation s)) evs) = []"
proof -
  obtain e' where e': "settle (initMultilingualAnimation s) = s\<lparr>prefersReducedMotion := True, hero := Some e'\<rparr>"
      "textContent e' = l_text (LANGUAGES ! 0)"
      "getAttribute ''lang'' e' = Some (l_lang (LANGUAGES ! 0))"
    using initMultilingualAnimation_reduced[OF assms(1,2)] by blast
  have a: "\<exists>e'. hero (settle (initMultilingualAnimation s)) = Some e'
          \<and> textContent e' = l_text (LANGUAGES ! 0)
          \<and> getAttribute ''lang'' e' = Some (l_lang (LANGUAGES ! 0))"
    using e' by simp
  have b: "animationInterval (settle (initMultilingualAnimation s)) = None"
    using e'(1) assms(3) by simp
  have c: "timers (settle (initMultilingualAnimation s)) = []"
    using e'(1) assms(4) by simp
  have "static_page (settle (initMultilingualAnimation s))"
    using e'(1) assms by (simp add: static_page_def)
  then have st: "static_page (run_events (settle (initMultilingualAnimation s)) evs)"
    using assms(5) by (rule static_page_run_events)
  have d: "animationInterval (run_events (settle (initMultilingualAnimation s)) evs) = None"
    using st by (simp add: static_page_def)
  have f: "timers (run_events (settle (initMultilingualAnimation s)) evs) = []"
    using st by (simp add: static_page_def)
  from a b c d f show ?thesis by blast
qed

theorem C7_reduced_motion_at_init_witness:
  "map_option textContent (hero (settle (initMultilingualAnimation (fresh_page (Some plain_hero) True False))))
     = Some ''ENIGMA''
   \<and> animationInterval (settle (initMultilingualAnimation (fresh_page (Some plain_hero) True False))) = None
   \<and> timers (run_events (settle (initMultilingualAnimation (fresh_page (Some plain_hero) True False)))
        [VisibilityChange True, VisibilityChange False, TimerFires]) = []"
  using C7_reduced_motion_at_init[of "fresh_page (Some plain_hero) True False" plain_hero
      "[VisibilityChange True, VisibilityChange False, TimerFires]"]
  by (auto simp: fresh_page_def LANGUAGES_def)

text \<open>
  Claim C10. With the listener registered, a hero element present and the handle
  naming an interval, the change of the preference to reduced motion clears that
  interval and nulls the handle, writes the text and the lang attribute of
  \<open>LANGUAGES[0]\<close>, removes both fade classes, and leaves \<open>currentLanguageIndex\<close> and the
  aria-label as they were; the change back to full motion shows the entry at the
  preserved index and attaches a fresh interval, one \<open>ANIMATION_INTERVAL\<close> away.
\<close>

theorem C10_motion_preference_flip:
  assumes "motion_listener s" and "hero s = Some e"
    and "animationInterval s = Some h" and "h \<noteq> 0"
    and "currentLanguageIndex s < length LANGUAGES"
  shows "let s1 = dispatch s (MotionChange True);
             s2 = dispatch s1 (MotionChange False);
             entry = LANGUAGES ! currentLanguageIndex s
         in animationInterval s1 = None
          \<and> timers s1 = filter (\<lambda>t. timer_id t \<noteq> h) (timers s)
          \<and> currentLanguageIndex s1 = currentLanguageIndex s
          \<and> (\<exists>e1. hero s1 = Some e1
                \<and> textContent e1 = l_text (LANGUAGES ! 0)
                \<and> getAttribute ''lang'' e1 = Some (l_lang (LANGUAGES ! 0))
                \<and> \<not> classList_contains ''fade-out'' e1
                \<and> \<not> classList_contains ''fade-in'' e1
                \<and> getAttribute ''aria-label'' e1 = getAttribute ''aria-label'' e)
          \<and> currentLanguageIndex s2 = currentLanguageIndex s
          \<and> (\<exists>e2. hero s2 = Some e2
                \<and> textContent e2 = l_text entry
                \<and> getAttribute ''lang'' e2 = Some (l_lang entry))
          \<and> animationInterval s2 = Some (next_timer_id s)
          \<and> timers s2 = timers s1 @
               [\<lparr>timer_id = next_timer_id s, due = now s + ANIMATION_INTERVAL,
                 repeat = Some ANIMATION_INTERVAL, callback = IntervalTick\<rparr>]"
  using assms
  by (simp add: Let_def motion_listener_body_def stopMultilingualAnimation_def clearInterval_def
      initMultilingualAnimation_def startLanguageCycle_def updateLanguageText_def setInterval_def
      element_simps class_simps)

lemma mid_fade_page_eq:
  "mid_fade_page =
    \<lparr>currentLanguageIndex = 1, animationInterval = Some 1, prefersReducedMotion = False,
     hero = Some \<lparr>textContent = l_text (LANGUAGES ! 1),
        attributes = [(''aria-live'', ''polite''),
           (''aria-label'', ''Hindi: '' @ l_text (LANGUAGES ! 1)), (''lang'', ''hi'')],
        classList = [''fade-in'']\<rparr>,
     reduce_query = False, doc_hidden = False, now = 3400,
     timers = [\<lparr>timer_id = 1, due = 6000, repeat = Some 3000, callback = IntervalTick\<rparr>,
               \<lparr>timer_id = 3, due = 4200, repeat = None, callback = FadeCleanup\<rparr>],
     next_timer_id = 4, motion_listener = True\<rparr>"
  by (simp add: mid_fade_page_def eval_defs)

theorem C10_motion_preference_flip_witness:
  "animationInterval (dispatch mid_fade_page (MotionChange True)) = None
   \<and> map timer_id (timers (dispatch mid_fade_page (MotionChange True))) = [3]
   \<and> currentLanguageIndex (dispatch mid_fade_page (MotionChange True)) = 1
   \<and> currentLanguageIndex (dispatch (dispatch mid_fade_page (MotionChange True)) (MotionChange False)) = 1
   \<and> animationInterval (dispatch (dispatch mid_fade_page (MotionChange True)) (MotionChange False)) = Some 4"
  using C10_motion_preference_flip[of mid_fade_page
      "\<lparr>textContent = l_text (LANGUAGES ! 1),
        attributes = [(''aria-live'', ''polite''),
           (''aria-label'', ''Hindi: '' @ l_text (LANGUAGES ! 1)), (''lang'', ''hi'')],
        classList = [''fade-in'']\<rparr>" 1]
  unfolding Let_def
  by (simp add: mid_fade_page_eq length_LANGUAGES)

section \<open>Properties of throttle\<close>

text \<open>
  The log of a wrapper that starts in a state related to \<open>prev\<close> grows by exactly the
  calls the specification lets through.
\<close>

lemma run_calls_spec:
  assumes "throttle_rel limit tcur st prev"
    and "sorted (tcur # map fst cs)"
    and "list_all (\<lambda>c. func (snd c)) cs"
  shows "invoked (run_calls func limit cs st) = invoked st @ spec_throttle limit prev cs"
  using assms
proof (induction cs arbitrary: st prev tcur)
  case Nil
  then show ?case by simp
next
  case (Cons c cs)
  obtain t args where c: "c = (t, args)" by (cases c)
  have f: "func args" and le: "tcur \<le> t" and srt: "sorted (t # map fst cs)"
    and all: "list_all (\<lambda>c. func (snd c)) cs"
    using Cons.prems c by auto
  let ?st' = "throttled func limit t args (run_resets t st)"
  show ?case
  proof (cases prev)
    case None
    then have st: "\<not> inThrottle st" "resets st = []"
      using Cons.prems(1) by (auto simp: throttle_rel_def)
    have rel: "throttle_rel limit t ?st' (Some t)"
      using st f by (simp add: throttle_rel_def throttled_def run_resets_def Let_def)
    have inv: "invoked ?st' = invoked st @ [(t, args)]"
      using st f by (simp add: throttled_def run_resets_def Let_def)
    show ?thesis
      using Cons.IH[OF rel srt all] inv None c by simp
  next
    case (Some t0)
    show ?thesis
    proof (cases "t0 + limit \<le> t")
      case True
      have rel: "throttle_rel limit t ?st' (Some t)"
        using Cons.prems(1) Some f True
        by (auto simp: throttle_rel_def throttled_def run_resets_def Let_def)
      have inv: "invoked ?st' = invoked st @ [(t, args)]"
        using Cons.prems(1) Some f True
        by (auto simp: throttle_rel_def throttled_def run_resets_def Let_def)
      show ?thesis
        using Cons.IH[OF rel srt all] inv Some c True by simp
    next
      case False
      have rel: "throttle_rel limit t ?st' (Some t0)"
        using Cons.prems(1) Some f False le
        by (auto simp: throttle_rel_def throttled_def run_resets_def Let_def)
      have inv: "invoked ?st' = invoked st"
        using Cons.prems(1) Some f False le
        by (auto simp: throttle_rel_def throttled_def run_resets_def Let_def)
      show ?thesis
        using Cons.IH[OF rel srt all] inv Some c False by simp
    qed
  qed
qed

text \<open>
  Claim C5. For calls in the order of their times and a \<open>func\<close> that returns, the
  wrapper of \<open>throttle(func, limit)\<close> applies \<open>func\<close> at exactly the calls the leading-edge
  specification lets through, at the time of the call and with its arguments: the
  first call, and every call at least \<open>limit\<close> milliseconds after the last executed
  one; the others are dropped. For calls at 0, 5 and 15 ms with a limit of 10 ms the
  calls at 0 and 15 execute.
\<close>

theorem C5_throttle_leading_edge:
  assumes "sorted (map fst cs)" and "list_all (\<lambda>c. func (snd c)) cs"
  shows "invoked (run_calls func limit cs throttle) = spec_throttle limit None cs
       \<and> invoked (run_calls (\<lambda>_. True) 10 [(0, a), (5, b), (15, c)] throttle) = [(0, a), (15, c)]"
proof -
  have rel: "throttle_rel limit 0 (throttle :: 'a throttle_state) None"
    by (simp add: throttle_rel_def throttle_def)
  have "sorted (0 # map fst cs)" using assms(1) by simp
  from run_calls_spec[OF rel this assms(2)]
  have 1: "invoked (run_calls func limit cs throttle) = spec_throttle limit None cs"
    by (simp add: throttle_def)
  have 2: "invoked (run_calls (\<lambda>_. True) 10 [(0, a), (5, b), (15, c)] throttle) = [(0, a), (15, c)]"
    by (simp add: throttle_def throttled_def run_resets_def Let_def)
  from 1 2 show ?thesis by blast
qed

theorem C5_throttle_leading_edge_witness:
  "invoked (run_calls (\<lambda>_. True) 10
      [(0, ''scroll''), (5, ''scroll''), (15, ''scroll''), (24, ''scroll''), (25, ''scroll'')] throttle)
     = [(0, ''scroll''), (15, ''scroll''), (25, ''scroll'')]"
proof -
  have s: "sorted (map fst [(0 :: nat, ''scroll''), (5, ''scroll''), (15, ''scroll''), (24, ''scroll''), (25, ''scroll'')])"
    by simp
  have f: "list_all (\<lambda>c. (\<lambda>_. True) (snd c))
      [(0 :: nat, ''scroll''), (5, ''scroll''), (15, ''scroll''), (24, ''scroll''), (25, ''scroll'')]"
    by simp
  have "invoked (run_calls (\<lambda>_. True) 10
      [(0, ''scroll''), (5, ''scroll''), (15, ''scroll''), (24, ''scroll''), (25, ''scroll'')] throttle)
     = spec_throttle 10 None
      [(0, ''scroll''), (5, ''scroll''), (15, ''scroll''), (24, ''scroll''), (25, ''scroll'')]"
    using C5_throttle_leading_edge[OF s f, of 10 "''a''" "''b''" "''c''"] by blast
  then show ?thesis by simp
qed

section \<open>Properties of the statistics counter\<close>

subsection \<open>The arithmetic\<close>

lemma easeOutCubic_mono: "p \<le> q \<Longrightarrow> easeOutCubic p \<le> easeOutCubic q"
proof -
  assume "p \<le> q"
  then have "1 - q \<le> 1 - p" by simp
  then have "(1 - q) ^ 3 \<le> (1 - p) ^ 3"
    by (rule power_mono_odd[rotated]) simp
  then show ?thesis by (simp add: easeOutCubic_def)
qed

lemma progress_mono: "t1 \<le> t2 \<Longrightarrow> progress s t1 \<le> progress s t2"
  unfolding progress_def statsCountDuration_def
  by (intro min.mono divide_right_mono) simp_all

lemma progress_le_1: "progress s t \<le> 1"
  by (simp add: progress_def)

lemma easeOutCubic_le_1: "p \<le> 1 \<Longrightarrow> easeOutCubic p \<le> 1"
  by (simp add: easeOutCubic_def)

lemma currentCount_mono:
  assumes "0 \<le> n" and "t1 \<le> t2"
  shows "currentCount n s t1 \<le> currentCount n s t2"
proof -
  have "easeOutCubic (progress s t1) \<le> easeOutCubic (progress s t2)"
    using assms(2) by (intro easeOutCubic_mono progress_mono)
  then have "easeOutCubic (progress s t1) * of_int n \<le> easeOutCubic (progress s t2) * of_int n"
    using assms(1) by (intro mult_right_mono) simp_all
  then show ?thesis unfolding currentCount_def by (rule floor_mono)
qed

lemma currentCount_le_target:
  assumes "0 \<le> n"
  shows "currentCount n s t \<le> n"
proof -
  have "easeOutCubic (progress s t) \<le> 1"
    by (intro easeOutCubic_le_1 progress_le_1)
  then have "easeOutCubic (progress s t) * of_int n \<le> 1 * of_int n"
    using assms by (intro mult_right_mono) simp_all
  then have "\<lfloor>easeOutCubic (progress s t) * of_int n\<rfloor> \<le> \<lfloor>(of_int n :: rat)\<rfloor>"
    by (intro floor_mono) simp
  then show ?thesis by (simp add: currentCount_def)
qed

lemma displayed_counts_bounds:
  assumes "0 \<le> n" and "sorted (t0 # ts)"
  shows "\<forall>v \<in> set (displayed_counts n s ts). currentCount n s t0 \<le> v \<and> v \<le> n"
  using assms
proof (induction ts arbitrary: t0)
  case Nil
  then show ?case by simp
next
  case (Cons t ts)
  have le: "t0 \<le> t" and srt: "sorted (t # ts)" using Cons.prems(2) by auto
  have a: "currentCount n s t0 \<le> currentCount n s t"
    using Cons.prems(1) le by (rule currentCount_mono)
  have b: "currentCount n s t \<le> n" using Cons.prems(1) by (rule currentCount_le_target)
  have c: "currentCount n s t0 \<le> n" using Cons.prems(1) by (rule currentCount_le_target)
  from Cons.IH[OF Cons.prems(1) srt] a b c show ?case by auto
qed

lemma displayed_counts_sorted:
  assumes "0 \<le> n" and "sorted ts"
  shows "sorted (displayed_counts n s ts)"
  using assms
proof (induction ts)
  case Nil
  then show ?case by simp
next
  case (Cons t ts)
  have srt: "sorted ts" using Cons.prems(2) by simp
  have b: "currentCount n s t \<le> n" using Cons.prems(1) by (rule currentCount_le_target)
  from displayed_counts_bounds[OF Cons.prems(1) Cons.prems(2)] Cons.IH[OF Cons.prems(1) srt] b
  show ?case by auto
qed

subsection \<open>The text of a frame\<close>



text \<open>
  The frame functions of the page model are these functions at exact arithmetic.
\<close>

lemma exact_ops_simps:
  "js_literal exact_ops i = Some (of_int i)"
  "js_minus exact_ops (Some x) (Some y) = Some (x - y)"
  "js_divide exact_ops (Some x) (Some 2000) = Some (x / 2000)"
  "js_times exact_ops (Some x) (Some y) = Some (x * y)"
  "js_times exact_ops (Some x) None = None"
  "js_times exact_ops None (Some x) = None"
  "Math_min exact_ops (Some x) (Some y) = Some (min x y)"
  "Math_pow exact_ops (Some x) (Some 3) = Some (x ^ 3)"
  "Math_floor exact_ops v = map_option (\<lambda>x. of_int \<lfloor>x\<rfloor>) v"
  "js_less exact_ops (Some x) (Some y) = (x < y)"
  "js_greater_eq exact_ops (Some x) (Some y) = (y \<le> x)"
  "js_greater_eq exact_ops None (Some y) = False"
  "js_to_string exact_ops v = js_number_text (map_option floor v)"
  by (simp_all add: exact_ops_def exact_binary_def exact_compare_def)

lemma updateCount_exact:
  "updateCount_on exact_ops (map_option of_int targetCount) (Some startTime) (Some t) el =
     updateCount targetCount startTime t el"
  by (cases targetCount)
     (simp_all add: updateCount_on_def updateCount_def Let_def exact_ops_simps currentCount_def
       progress_def easeOutCubic_def statsCountDuration_def plus_suffix_def)

lemma updateNumber_exact:
  "updateNumber_on exact_ops (map_option of_int tgt) (Some startTime) (Some t) stat =
     updateNumber tgt startTime t stat"
  by (cases tgt)
     (simp_all add: updateNumber_on_def updateNumber_def Let_def exact_ops_simps currentCount_def
       progress_def easeOutCubic_def statsCountDuration_def mult.commute)

text \<open>The same frames on the sample page, under the script that has the suffix.\<close>

lemma counter_text_on_sample_doc:
  "map textContent (elements (foldl app_dispatch sample_doc
      [Observed 0 [\<lparr>isIntersecting = True, target = 1\<rparr>], AppFrame 1000]))
     = [''About'', '''', ''437+'', ''43'']
   \<and> map textContent (elements (foldl app_dispatch sample_doc
      [Observed 0 [\<lparr>isIntersecting = True, target = 1\<rparr>], AppFrame 1000, AppFrame 2000]))
     = [''About'', '''', ''500+'', ''50'']"
  by code_simp

subsection \<open>Monotone display\<close>

text \<open>
  Claim C8. For a target that is not negative and frames whose timestamps do not
  decrease, the numbers a counter writes, frame after frame and through the final
  write of the target, never decrease, and none exceeds the target; the text that a
  frame of either script leaves is the numeral of the last number of that frame.
\<close>

theorem C8_displayed_counts_monotone:
  assumes "0 \<le> n" and "sorted ts"
  shows "sorted (displayed_counts n startTime ts)
       \<and> (\<forall>v \<in> set (displayed_counts n startTime ts). v \<le> n)
       \<and> (\<forall>t el. textContent (fst (updateCount (Some n) startTime t el)) =
                    js_number_text (Some (last (displayed_counts n startTime [t]))) @ plus_suffix (Some n)
                \<and> textContent (fst (updateNumber (Some n) startTime t el)) =
                    js_number_text (Some (last (displayed_counts n startTime [t]))))"
proof -
  have 1: "sorted (displayed_counts n startTime ts)"
    using assms by (rule displayed_counts_sorted)
  have 2: "\<forall>v \<in> set (displayed_counts n startTime ts). v \<le> n"
  proof (cases ts)
    case Nil
    then show ?thesis by simp
  next
    case (Cons t0 ts')
    have "sorted (t0 # ts)" using assms(2) Cons by simp
    from displayed_counts_bounds[OF assms(1) this] show ?thesis by blast
  qed
  have 3: "\<forall>t el. textContent (fst (updateCount (Some n) startTime t el)) =
                    js_number_text (Some (last (displayed_counts n startTime [t]))) @ plus_suffix (Some n)
                \<and> textContent (fst (updateNumber (Some n) startTime t el)) =
                    js_number_text (Some (last (displayed_counts n startTime [t])))"
    by (simp add: updateCount_def updateNumber_def Let_def)
  from 1 2 3 show ?thesis by blast
qed

theorem C8_displayed_counts_monotone_witness:
  "sorted (displayed_counts 500 10 [5, 16, 1010, 2010, 2020])
   \<and> displayed_counts 500 10 [5, 16, 1010, 2010, 2020] = [- 4, 4, 437, 500, 500]"
proof -
  have e: "displayed_counts 500 10 [5, 16, 1010, 2010, 2020] = [- 4, 4, 437, 500, 500]"
    by code_simp
  have "(0::int) \<le> 500" by simp
  moreover have "sorted [5, 16, 1010, 2010, 2020 :: rat]" by simp
  ultimately have "sorted (displayed_counts 500 10 [5, 16, 1010, 2010, 2020])"
    using C8_displayed_counts_monotone[of 500 "[5, 16, 1010, 2010, 2020]" 10] by blast
  with e show ?thesis by simp
qed

section \<open>Properties of the observers\<close>

subsection \<open>The counters start once\<close>








lemma classList_updateNumber: "classList (fst (updateNumber tg s t e)) = classList e"
  by (simp add: updateNumber_def Let_def)

lemma classList_updateCount: "classList (fst (updateCount tg s t e)) = classList e"
  by (simp add: updateCount_def Let_def)













subsection \<open>The reveal\<close>

lemma length_update_element: "length (elements (update_element i f d)) = length (elements d)"
  by (simp add: update_element_def)

lemma has_class_update_element_add:
  "has_class i c d \<Longrightarrow> has_class i c (update_element j (classList_add c') d)"
  by (auto simp: has_class_def update_element_def nth_list_update classList_contains_add)

lemma has_class_update_element_same:
  "j < length (elements d) \<Longrightarrow> has_class j c (update_element j (classList_add c) d)"
  by (simp add: has_class_def update_element_def classList_contains_add)

lemma update_element_add_present:
  assumes "i < length (elements d) \<longrightarrow> has_class i c d"
  shows "update_element i (classList_add c) d = d"
proof (cases "i < length (elements d)")
  case True
  with assms have "classList_add c (elements d ! i) = elements d ! i"
    by (simp add: has_class_def classList_contains_def classList_add_def)
  then show ?thesis using True by (simp add: update_element_def)
next
  case False
  then show ?thesis by (simp add: update_element_def)
qed

lemma run_frame_callback_keeps:
  "length (elements (run_frame_callback ts d cb)) = length (elements d)
   \<and> (has_class i c d \<longrightarrow> has_class i c (run_frame_callback ts d cb))"
proof (cases cb)
  case (AddClass j c')
  then show ?thesis
    by (simp add: length_update_element has_class_update_element_add)
next
  case (UpdateNumber j tg s)
  show ?thesis
  proof (cases "j < length (elements d)")
    case True
    obtain e again where u: "updateNumber tg s ts (elements d ! j) = (e, again)"
      by (cases "updateNumber tg s ts (elements d ! j)")
    have cl: "classList e = classList (elements d ! j)"
      using classList_updateNumber[of tg s ts "elements d ! j"] u by simp
    show ?thesis
      using True u UpdateNumber cl
      by (auto simp: has_class_def classList_contains_def nth_list_update)
  next
    case False
    then show ?thesis using UpdateNumber by simp
  qed
next
  case (UpdateCount j tg s)
  show ?thesis
  proof (cases "j < length (elements d)")
    case True
    obtain e again where u: "updateCount tg s ts (elements d ! j) = (e, again)"
      by (cases "updateCount tg s ts (elements d ! j)")
    have cl: "classList e = classList (elements d ! j)"
      using classList_updateCount[of tg s ts "elements d ! j"] u by simp
    show ?thesis
      using True u UpdateCount cl
      by (auto simp: has_class_def classList_contains_def nth_list_update)
  next
    case False
    then show ?thesis using UpdateCount by simp
  qed
qed

lemma foldl_run_frame_callback_keeps:
  "length (elements (foldl (run_frame_callback ts) d rs)) = length (elements d)
   \<and> (has_class i c d \<longrightarrow> has_class i c (foldl (run_frame_callback ts) d rs))"
proof (induction rs arbitrary: d)
  case Nil
  then show ?case by simp
next
  case (Cons r rs)
  from run_frame_callback_keeps[of ts d r i c] Cons.IH[of "run_frame_callback ts d r"]
  show ?case by simp
qed

lemma has_class_frame_requests_update:
  "has_class i c (d\<lparr>frame_requests := r\<rparr>) = has_class i c d"
  by (simp add: has_class_def)

lemma run_frame_keeps: "has_class i c d \<Longrightarrow> has_class i c (run_frame ts d)"
  unfolding run_frame_def
  using foldl_run_frame_callback_keeps[of ts "d\<lparr>frame_requests := []\<rparr>" "frame_requests d" i c]
  by (simp add: has_class_frame_requests_update)

lemma foldl_run_frame_callback_adds:
  assumes "AddClass i c \<in> set rs" and "i < length (elements d)"
  shows "has_class i c (foldl (run_frame_callback ts) d rs)"
  using assms
proof (induction rs arbitrary: d)
  case Nil
  then show ?case by simp
next
  case (Cons r rs)
  have len: "i < length (elements (run_frame_callback ts d r))"
    using Cons.prems(2) run_frame_callback_keeps[of ts d r] by simp
  show ?case
  proof (cases "r = AddClass i c")
    case True
    have "has_class i c (run_frame_callback ts d r)"
      using True Cons.prems(2) by (simp add: has_class_update_element_same)
    then show ?thesis
      using foldl_run_frame_callback_keeps[of ts "run_frame_callback ts d r" rs i c] by simp
  next
    case False
    then have "AddClass i c \<in> set rs" using Cons.prems(1) by simp
    from Cons.IH[OF this len] show ?thesis by simp
  qed
qed

lemma foldl_add_present:
  assumes "\<forall>i \<in> set js. i < length (elements d) \<longrightarrow> has_class i c d"
  shows "foldl (run_frame_callback ts) d (map (\<lambda>i. AddClass i c) js) = d"
  using assms
proof (induction js)
  case Nil
  then show ?case by simp
next
  case (Cons j js)
  have "update_element j (classList_add c) d = d"
    using Cons.prems by (intro update_element_add_present) simp
  then show ?case using Cons by simp
qed

lemma initScrollAnimations_callback_keeps:
  "length (elements (initScrollAnimations_callback es d)) = length (elements d)
   \<and> (has_class i c d \<longrightarrow> has_class i c (initScrollAnimations_callback es d))"
  unfolding initScrollAnimations_callback_def
proof (induction es arbitrary: d)
  case Nil
  then show ?case by simp
next
  case (Cons en es)
  let ?d' = "if isIntersecting en then update_element (target en) (classList_add ''visible'') d else d"
  have "length (elements ?d') = length (elements d)
      \<and> (has_class i c d \<longrightarrow> has_class i c ?d')"
    by (simp add: length_update_element has_class_update_element_add)
  with Cons.IH[of ?d'] show ?case by simp
qed

lemma initScrollAnimations_callback_reveals:
  assumes "en \<in> set es" and "isIntersecting en" and "target en < length (elements d)"
  shows "has_class (target en) ''visible'' (initScrollAnimations_callback es d)"
  using assms
proof (induction es arbitrary: d)
  case Nil
  then show ?case by simp
next
  case (Cons e es)
  let ?d' = "if isIntersecting e then update_element (target e) (classList_add ''visible'') d else d"
  have unfold: "initScrollAnimations_callback (e # es) d = initScrollAnimations_callback es ?d'"
    by (simp add: initScrollAnimations_callback_def)
  have len: "target en < length (elements ?d')"
    using Cons.prems(3) by (simp add: length_update_element)
  show ?case
  proof (cases "en = e")
    case True
    have "has_class (target en) ''visible'' ?d'"
      using True Cons.prems(2,3) by (simp add: has_class_update_element_same)
    then show ?thesis
      unfolding unfold using initScrollAnimations_callback_keeps[of es ?d' "target en" "''visible''"] by blast
  next
    case False
    then have "en \<in> set es" using Cons.prems(1) by simp
    from Cons.IH[OF this Cons.prems(2) len] show ?thesis unfolding unfold .
  qed
qed

lemma initScrollAnimations_callback_settled:
  assumes "\<forall>en \<in> set es. isIntersecting en \<longrightarrow> target en < length (elements d)
             \<longrightarrow> has_class (target en) ''visible'' d"
  shows "initScrollAnimations_callback es d = d"
  using assms unfolding initScrollAnimations_callback_def
proof (induction es)
  case Nil
  then show ?case by simp
next
  case (Cons e es)
  have "(if isIntersecting e then update_element (target e) (classList_add ''visible'') d else d) = d"
    using Cons.prems by (simp add: update_element_add_present)
  then show ?case using Cons by simp
qed

lemma initScrollAnimations_callback_idem:
  "initScrollAnimations_callback es (initScrollAnimations_callback es d) = initScrollAnimations_callback es d"
proof (rule initScrollAnimations_callback_settled, intro ballI impI)
  fix en assume en: "en \<in> set es" "isIntersecting en"
    and "target en < length (elements (initScrollAnimations_callback es d))"
  then have "target en < length (elements d)"
    using initScrollAnimations_callback_keeps[of es d] by simp
  with en show "has_class (target en) ''visible'' (initScrollAnimations_callback es d)"
    by (rule initScrollAnimations_callback_reveals)
qed

lemma initStatsCounter_callback_keeps:
  "length (elements (initStatsCounter_callback tnow es d)) = length (elements d)
   \<and> (has_class i c d \<longrightarrow> has_class i c (initStatsCounter_callback tnow es d))"
  unfolding initStatsCounter_callback_def
proof (induction es arbitrary: d)
  case Nil
  then show ?case by simp
next
  case (Cons en es)
  let ?d' = "if isIntersecting en \<and> \<not> statsAnimated d
             then animateStats tnow (d\<lparr>statsAnimated := True\<rparr>) else d"
  have "length (elements ?d') = length (elements d) \<and> (has_class i c d \<longrightarrow> has_class i c ?d')"
    by (simp add: animateStats_def has_class_def)
  with Cons.IH[of ?d'] show ?case by simp
qed

lemma setupIntersectionObserver_callback_foldl:
  "setupIntersectionObserver_callback tnow es d = foldl (observer_step tnow) d es"
  unfolding setupIntersectionObserver_callback_def observer_step_def ..

lemma observer_step_keeps:
  "length (elements (observer_step tnow d en)) = length (elements d)
   \<and> (has_class i c d \<longrightarrow> has_class i c (observer_step tnow d en))
   \<and> (statsAnimated d \<longrightarrow> statsAnimated (observer_step tnow d en))
   \<and> reducedMotion (observer_step tnow d en) = reducedMotion d
   \<and> set (frame_requests d) \<subseteq> set (frame_requests (observer_step tnow d en))"
proof (cases "reducedMotion d")
  case True
  then show ?thesis
    by (auto simp: observer_step_def Let_def addClassWithAnimation_def animateStatistics_def
        length_update_element has_class_update_element_add update_element_def)
       (auto simp: has_class_def nth_list_update classList_contains_add)
next
  case False
  then show ?thesis
    by (auto simp: observer_step_def Let_def addClassWithAnimation_def animateStatistics_def
        has_class_def)
qed

lemma observer_steps_keep:
  "length (elements (foldl (observer_step tnow) d es)) = length (elements d)
   \<and> (has_class i c d \<longrightarrow> has_class i c (foldl (observer_step tnow) d es))
   \<and> (statsAnimated d \<longrightarrow> statsAnimated (foldl (observer_step tnow) d es))
   \<and> reducedMotion (foldl (observer_step tnow) d es) = reducedMotion d
   \<and> set (frame_requests d) \<subseteq> set (frame_requests (foldl (observer_step tnow) d es))"
proof (induction es arbitrary: d)
  case Nil
  then show ?case by simp
next
  case (Cons e es)
  from observer_step_keeps[of tnow d e i c] Cons.IH[of "observer_step tnow d e"]
  show ?case by auto
qed

lemma has_class_update_element_back:
  "has_class i c (update_element j (classList_add c') d) \<Longrightarrow> c \<noteq> c' \<Longrightarrow> has_class i c d"
  by (auto simp: has_class_def update_element_def nth_list_update classList_contains_add
      split: if_splits)

lemma observer_step_back:
  assumes "has_class i c (observer_step tnow d en)" and "c \<noteq> ''visible''"
  shows "has_class i c d"
proof (cases "isIntersecting en")
  case False
  with assms show ?thesis by (simp add: observer_step_def)
next
  case True
  let ?d1 = "addClassWithAnimation (target en) ''visible'' d"
  have "has_class i c ?d1"
    using assms(1) True
    by (auto simp: observer_step_def Let_def animateStatistics_def has_class_def split: if_splits)
  then show ?thesis
    using assms(2) has_class_update_element_back[of i c "target en" "''visible''" d]
    by (auto simp: addClassWithAnimation_def has_class_def split: if_splits)
qed

lemma observer_steps_back:
  "has_class i c (foldl (observer_step tnow) d es) \<Longrightarrow> c \<noteq> ''visible'' \<Longrightarrow> has_class i c d"
proof (induction es arbitrary: d)
  case Nil
  then show ?case by simp
next
  case (Cons e es)
  from Cons.IH[of "observer_step tnow d e"] Cons.prems
  have "has_class i c (observer_step tnow d e)" by simp
  then show ?case using Cons.prems(2) by (rule observer_step_back)
qed

lemma observer_step_triggers:
  assumes "isIntersecting en" and "has_class (target en) ''stats-container'' d"
  shows "statsAnimated (observer_step tnow d en)"
proof -
  let ?d1 = "addClassWithAnimation (target en) ''visible'' d"
  have "has_class (target en) ''stats-container'' ?d1"
  proof (cases "reducedMotion d")
    case True
    then show ?thesis
      using assms(2) by (simp add: addClassWithAnimation_def has_class_update_element_add)
  next
    case False
    then show ?thesis
      using assms(2) by (simp add: addClassWithAnimation_def has_class_def)
  qed
  then show ?thesis
    using assms(1) by (auto simp: observer_step_def Let_def animateStatistics_def)
qed

lemma observer_steps_animated:
  assumes "en \<in> set es" and "isIntersecting en"
    and "has_class (target en) ''stats-container'' (foldl (observer_step tnow) d es)"
  shows "statsAnimated (foldl (observer_step tnow) d es)"
  using assms
proof (induction es arbitrary: d)
  case Nil
  then show ?case by simp
next
  case (Cons e es)
  show ?case
  proof (cases "en = e")
    case True
    have "has_class (target en) ''stats-container'' d"
      using Cons.prems(3) by (rule observer_steps_back) simp
    then have "statsAnimated (observer_step tnow d e)"
      using True Cons.prems(2) observer_step_triggers by blast
    then show ?thesis
      using observer_steps_keep[of tnow "observer_step tnow d e" es] by simp
  next
    case False
    then have "en \<in> set es" using Cons.prems(1) by simp
    from Cons.IH[OF this Cons.prems(2)] Cons.prems(3) show ?thesis by simp
  qed
qed

lemma observer_step_reveals:
  assumes "isIntersecting en" and "target en < length (elements d)"
  shows "if reducedMotion d then has_class (target en) ''visible'' (observer_step tnow d en)
         else AddClass (target en) ''visible'' \<in> set (frame_requests (observer_step tnow d en))"
  using assms
  by (auto simp: observer_step_def Let_def addClassWithAnimation_def animateStatistics_def
      has_class_def update_element_def classList_contains_add)

lemma observer_step_requests:
  assumes "isIntersecting en" and "\<not> reducedMotion d"
  shows "AddClass (target en) ''visible'' \<in> set (frame_requests (observer_step tnow d en))"
  using assms
  by (auto simp: observer_step_def Let_def addClassWithAnimation_def animateStatistics_def)

lemma observer_steps_reveal:
  assumes "en \<in> set es" and "isIntersecting en"
  shows "if reducedMotion d
         then target en < length (elements d) \<longrightarrow>
                has_class (target en) ''visible'' (foldl (observer_step tnow) d es)
         else AddClass (target en) ''visible'' \<in> set (frame_requests (foldl (observer_step tnow) d es))"
  using assms
proof (induction es arbitrary: d)
  case Nil
  then show ?case by simp
next
  case (Cons e es)
  have rm: "reducedMotion (observer_step tnow d e) = reducedMotion d"
    and len: "length (elements (observer_step tnow d e)) = length (elements d)"
    using observer_step_keeps[of tnow d e] by simp_all
  show ?case
  proof (cases "en = e")
    case True
    show ?thesis
    proof (cases "reducedMotion d")
      case rd: True
      have "target en < length (elements d) \<longrightarrow> has_class (target en) ''visible'' (observer_step tnow d e)"
        using observer_step_reveals[of en d tnow] True Cons.prems(2) rd by auto
      then show ?thesis
        using rd observer_steps_keep[of tnow "observer_step tnow d e" es "target en" "''visible''"]
        by auto
    next
      case rd: False
      have "AddClass (target en) ''visible'' \<in> set (frame_requests (observer_step tnow d e))"
        using observer_step_requests[of en d tnow] True Cons.prems(2) rd by simp
      then show ?thesis
        using rd observer_steps_keep[of tnow "observer_step tnow d e" es] by auto
    qed
  next
    case False
    then have "en \<in> set es" using Cons.prems(1) by simp
    from Cons.IH[OF this Cons.prems(2), of "observer_step tnow d e"] rm len
    show ?thesis by simp
  qed
qed

lemma observer_steps_settled:
  assumes "\<forall>en \<in> set es. isIntersecting en \<longrightarrow> has_class (target en) ''stats-container'' x \<longrightarrow> statsAnimated x"
    and "reducedMotion x \<longrightarrow> (\<forall>en \<in> set es. isIntersecting en \<longrightarrow> target en < length (elements x)
            \<longrightarrow> has_class (target en) ''visible'' x)"
  shows "foldl (observer_step tnow) x es =
         x\<lparr>frame_requests := frame_requests x @
             (if reducedMotion x then []
              else map (\<lambda>en. AddClass (target en) ''visible'') (filter isIntersecting es))\<rparr>"
  using assms
proof (induction es arbitrary: x)
  case Nil
  then show ?case by simp
next
  case (Cons e es)
  let ?x' = "x\<lparr>frame_requests := frame_requests x @
      (if reducedMotion x \<or> \<not> isIntersecting e then [] else [AddClass (target e) ''visible''])\<rparr>"
  have step: "observer_step tnow x e = ?x'"
  proof (cases "isIntersecting e")
    case False
    then show ?thesis by (simp add: observer_step_def)
  next
    case True
    show ?thesis
    proof (cases "reducedMotion x")
      case rd: True
      have "update_element (target e) (classList_add ''visible'') x = x"
        using Cons.prems(2) rd True by (intro update_element_add_present) simp
      then show ?thesis
        using True rd Cons.prems(1)
        by (auto simp: observer_step_def Let_def addClassWithAnimation_def)
    next
      case rd: False
      then show ?thesis
        using True Cons.prems(1)
        by (auto simp: observer_step_def Let_def addClassWithAnimation_def has_class_def)
    qed
  qed
  have p1: "\<forall>en \<in> set es. isIntersecting en \<longrightarrow> has_class (target en) ''stats-container'' ?x' \<longrightarrow> statsAnimated ?x'"
    using Cons.prems(1) by (simp add: has_class_def)
  have p2: "reducedMotion ?x' \<longrightarrow> (\<forall>en \<in> set es. isIntersecting en \<longrightarrow> target en < length (elements ?x')
            \<longrightarrow> has_class (target en) ''visible'' ?x')"
    using Cons.prems(2) by (simp add: has_class_def)
  have "foldl (observer_step tnow) x (e # es) = foldl (observer_step tnow) ?x' es"
    using step by simp
  also have "\<dots> = ?x'\<lparr>frame_requests := frame_requests ?x' @
             (if reducedMotion ?x' then []
              else map (\<lambda>en. AddClass (target en) ''visible'') (filter isIntersecting es))\<rparr>"
    by (rule Cons.IH[OF p1 p2])
  also have "\<dots> = x\<lparr>frame_requests := frame_requests x @
             (if reducedMotion x then []
              else map (\<lambda>en. AddClass (target en) ''visible'') (filter isIntersecting (e # es)))\<rparr>"
    by simp
  finally show ?case .
qed

lemma observer_twice:
  "foldl (observer_step t2) (foldl (observer_step t1) d es) es =
     (foldl (observer_step t1) d es)\<lparr>frame_requests := frame_requests (foldl (observer_step t1) d es) @
        (if reducedMotion d then []
         else map (\<lambda>en. AddClass (target en) ''visible'') (filter isIntersecting es))\<rparr>"
proof -
  let ?d1 = "foldl (observer_step t1) d es"
  have rm: "reducedMotion ?d1 = reducedMotion d" and len: "length (elements ?d1) = length (elements d)"
    using observer_steps_keep[of t1 d es] by simp_all
  have p1: "\<forall>en \<in> set es. isIntersecting en \<longrightarrow> has_class (target en) ''stats-container'' ?d1 \<longrightarrow> statsAnimated ?d1"
    using observer_steps_animated by blast
  have p2: "reducedMotion ?d1 \<longrightarrow> (\<forall>en \<in> set es. isIntersecting en \<longrightarrow> target en < length (elements ?d1)
            \<longrightarrow> has_class (target en) ''visible'' ?d1)"
  proof (intro impI ballI)
    fix en assume "reducedMotion ?d1" and en: "en \<in> set es" "isIntersecting en"
      and "target en < length (elements ?d1)"
    then have "reducedMotion d" "target en < length (elements d)" using rm len by simp_all
    with observer_steps_reveal[OF en, of d t1] show "has_class (target en) ''visible'' ?d1" by simp
  qed
  from observer_steps_settled[OF p1 p2, of t2] rm show ?thesis by simp
qed

lemma observer_twice_frame:
  "run_frame ts (foldl (observer_step t2) (foldl (observer_step t1) d es) es) =
   run_frame ts (foldl (observer_step t1) d es)"
proof (cases "reducedMotion d")
  case True
  then show ?thesis by (simp add: observer_twice)
next
  case False
  let ?d1 = "foldl (observer_step t1) d es"
  let ?js = "map target (filter isIntersecting es)"
  have A: "map (\<lambda>en. AddClass (target en) ''visible'') (filter isIntersecting es)
      = map (\<lambda>i. AddClass i ''visible'') ?js"
    by (simp add: comp_def)
  have len: "length (elements (run_frame ts ?d1)) = length (elements ?d1)"
    unfolding run_frame_def
    using foldl_run_frame_callback_keeps[of ts "?d1\<lparr>frame_requests := []\<rparr>" "frame_requests ?d1"]
    by simp
  have vis: "\<forall>i \<in> set ?js. i < length (elements (run_frame ts ?d1)) \<longrightarrow>
      has_class i ''visible'' (run_frame ts ?d1)"
  proof (intro ballI impI)
    fix i assume "i \<in> set ?js" and i: "i < length (elements (run_frame ts ?d1))"
    then obtain en where en: "en \<in> set es" "isIntersecting en" "i = target en" by auto
    have "AddClass i ''visible'' \<in> set (frame_requests ?d1)"
      using observer_steps_reveal[OF en(1,2), of d t1] False en(3) by simp
    moreover have "i < length (elements (?d1\<lparr>frame_requests := []\<rparr>))"
      using i len by simp
    ultimately show "has_class i ''visible'' (run_frame ts ?d1)"
      unfolding run_frame_def by (rule foldl_run_frame_callback_adds)
  qed
  have "run_frame ts (foldl (observer_step t2) ?d1 es)
      = foldl (run_frame_callback ts) (run_frame ts ?d1) (map (\<lambda>i. AddClass i ''visible'') ?js)"
    using False by (simp add: observer_twice run_frame_def A)
  also have "\<dots> = run_frame ts ?d1"
    using vis by (rule foldl_add_present)
  finally show ?thesis .
qed

lemma observer_frame_reveals:
  assumes "en \<in> set es" and "isIntersecting en" and "target en < length (elements d)"
  shows "has_class (target en) ''visible'' (run_frame ts (foldl (observer_step tnow) d es))"
proof (cases "reducedMotion d")
  case True
  with observer_steps_reveal[OF assms(1,2), of d tnow] assms(3)
  have "has_class (target en) ''visible'' (foldl (observer_step tnow) d es)" by simp
  then show ?thesis by (rule run_frame_keeps)
next
  case False
  let ?d1 = "foldl (observer_step tnow) d es"
  have "AddClass (target en) ''visible'' \<in> set (frame_requests ?d1)"
    using observer_steps_reveal[OF assms(1,2), of d tnow] False by simp
  moreover have "target en < length (elements (?d1\<lparr>frame_requests := []\<rparr>))"
    using assms(3) observer_steps_keep[of tnow d es] by simp
  ultimately show ?thesis
    unfolding run_frame_def by (rule foldl_run_frame_callback_adds)
qed

lemma script_dispatch_keeps: "has_class i c d \<Longrightarrow> has_class i c (script_dispatch d ev)"
proof (cases ev)
  case (StatsObserved tnow es)
  assume "has_class i c d"
  then show ?thesis using StatsObserved initStatsCounter_callback_keeps[of tnow es d i c] by simp
next
  case (ScrollObserved es)
  assume "has_class i c d"
  then show ?thesis using ScrollObserved initScrollAnimations_callback_keeps[of es d i c] by simp
next
  case (ScriptFrame ts)
  assume "has_class i c d"
  then show ?thesis using ScriptFrame by (simp add: run_frame_keeps)
qed

lemma app_dispatch_keeps: "has_class i c d \<Longrightarrow> has_class i c (app_dispatch d ev)"
proof (cases ev)
  case (Observed tnow es)
  assume "has_class i c d"
  then show ?thesis
    using Observed observer_steps_keep[of tnow d es i c]
    by (simp add: setupIntersectionObserver_callback_foldl)
next
  case (AppFrame ts)
  assume "has_class i c d"
  then show ?thesis using AppFrame by (simp add: run_frame_keeps)
next
  case (MotionPreference m)
  assume "has_class i c d"
  then show ?thesis using MotionPreference by (simp add: has_class_def)
qed

lemma script_run_keeps: "has_class i c d \<Longrightarrow> has_class i c (foldl script_dispatch d evs)"
  by (induction evs arbitrary: d) (simp_all add: script_dispatch_keeps)

lemma app_run_keeps: "has_class i c d \<Longrightarrow> has_class i c (foldl app_dispatch d evs)"
  by (induction evs arbitrary: d) (simp_all add: app_dispatch_keeps)

text \<open>
  Claim C9. In script.js the callback of the scroll-animation observer applied twice
  to the same entries leaves the document that one application leaves, and every
  intersecting entry's element has the class \<open>visible\<close> after it. In the other script
  a second application of the observer's callback changes no element, and after the
  next frame (which runs the deferred additions of \<open>addClassWithAnimation\<close>) the
  document is the one a single application gives, with \<open>visible\<close> on every
  intersecting entry's element. The reveal is one-way: under every observer report,
  frame and preference change of either script an element that has \<open>visible\<close> keeps
  it.
\<close>

theorem C9_reveal_idempotent_one_way:
  "initScrollAnimations_callback es (initScrollAnimations_callback es d) =
     initScrollAnimations_callback es d
   \<and> (\<forall>en \<in> set es. isIntersecting en \<and> target en < length (elements d) \<longrightarrow>
         has_class (target en) ''visible'' (initScrollAnimations_callback es d)
         \<and> has_class (target en) ''visible'' (run_frame ts (setupIntersectionObserver_callback t1 es d)))
   \<and> elements (setupIntersectionObserver_callback t2 es (setupIntersectionObserver_callback t1 es d)) =
       elements (setupIntersectionObserver_callback t1 es d)
   \<and> run_frame ts (setupIntersectionObserver_callback t2 es (setupIntersectionObserver_callback t1 es d)) =
       run_frame ts (setupIntersectionObserver_callback t1 es d)
   \<and> (has_class i ''visible'' d \<longrightarrow>
         has_class i ''visible'' (foldl script_dispatch d evs)
         \<and> has_class i ''visible'' (foldl app_dispatch d aevs))"
proof -
  have 1: "initScrollAnimations_callback es (initScrollAnimations_callback es d) =
     initScrollAnimations_callback es d"
    by (rule initScrollAnimations_callback_idem)
  have 2: "\<forall>en \<in> set es. isIntersecting en \<and> target en < length (elements d) \<longrightarrow>
         has_class (target en) ''visible'' (initScrollAnimations_callback es d)
         \<and> has_class (target en) ''visible'' (run_frame ts (setupIntersectionObserver_callback t1 es d))"
    using initScrollAnimations_callback_reveals observer_frame_reveals
    by (simp add: setupIntersectionObserver_callback_foldl)
  have 3: "elements (setupIntersectionObserver_callback t2 es (setupIntersectionObserver_callback t1 es d)) =
       elements (setupIntersectionObserver_callback t1 es d)"
    by (simp add: setupIntersectionObserver_callback_foldl observer_twice)
  have 4: "run_frame ts (setupIntersectionObserver_callback t2 es (setupIntersectionObserver_callback t1 es d)) =
       run_frame ts (setupIntersectionObserver_callback t1 es d)"
    by (simp add: setupIntersectionObserver_callback_foldl observer_twice_frame)
  have 5: "has_class i ''visible'' d \<longrightarrow>
         has_class i ''visible'' (foldl script_dispatch d evs)
         \<and> has_class i ''visible'' (foldl app_dispatch d aevs)"
    by (simp add: script_run_keeps app_run_keeps)
  from 1 2 3 4 5 show ?thesis by blast
qed

theorem C9_reveal_idempotent_one_way_witness:
  "has_class 0 ''visible'' (initScrollAnimations_callback [\<lparr>isIntersecting = True, target = 0\<rparr>] sample_doc)
   \<and> has_class 0 ''visible''
        (run_frame 16 (setupIntersectionObserver_callback 10 [\<lparr>isIntersecting = True, target = 0\<rparr>] sample_doc))
   \<and> has_class 0 ''visible''
        (foldl script_dispatch (initScrollAnimations_callback [\<lparr>isIntersecting = True, target = 0\<rparr>] sample_doc)
           [ScrollObserved [\<lparr>isIntersecting = False, target = 0\<rparr>], ScriptFrame 16,
            ScrollObserved [\<lparr>isIntersecting = True, target = 0\<rparr>]])"
proof -
  let ?en = "\<lparr>isIntersecting = True, target = 0\<rparr>"
  have h: "?en \<in> set [?en]" "isIntersecting ?en \<and> target ?en < length (elements sample_doc)"
    by (simp_all add: sample_doc_def)
  from C9_reveal_idempotent_one_way[of "[?en]" sample_doc 16 10 10 0 "[]" "[]"] h
  have a: "has_class 0 ''visible'' (initScrollAnimations_callback [?en] sample_doc)"
    and b: "has_class 0 ''visible'' (run_frame 16 (setupIntersectionObserver_callback 10 [?en] sample_doc))"
    by auto
  from C9_reveal_idempotent_one_way[of "[?en]" "initScrollAnimations_callback [?en] sample_doc" 16 10 10 0
      "[ScrollObserved [\<lparr>isIntersecting = False, target = 0\<rparr>], ScriptFrame 16, ScrollObserved [?en]]" "[]"] a
  have c: "has_class 0 ''visible''
        (foldl script_dispatch (initScrollAnimations_callback [?en] sample_doc)
           [ScrollObserved [\<lparr>isIntersecting = False, target = 0\<rparr>], ScriptFrame 16, ScrollObserved [?en]])"
    by blast
  from a b c show ?thesis by blast
qed

end
